theory Spec2Isabelle
  imports Main
begin

section \<open>The operating system as the interpreter sees it\<close>

text \<open>
  SeaShell (\<^verbatim>\<open>Seashell.c\<close>) reads a line, splits it at spaces, runs the built-ins
  \<^verbatim>\<open>exit\<close> and \<^verbatim>\<open>cd\<close> itself and hands every other line to \<^verbatim>\<open>execCmd\<close>, which forks
  one child, or two children joined by a pipe. The system calls are modelled by their
  effect on an explicit state; what the operating system decides (whether a file opens,
  a program exists, a fork succeeds, which child terminates first) is read from a
  record of oracles, \<open>env\<close>.
\<close>

subsection \<open>Descriptor tables\<close>

datatype oflag = O_RDONLY | O_WRONLY | O_CREAT | O_TRUNC | O_APPEND

datatype resource =
    Inherited nat
  | PipeRead nat
  | PipeWrite nat
  | OpenFile string "oflag list" nat

text \<open>
  A descriptor table is indexed by the descriptor number; \<open>None\<close> is a closed slot.
  \<open>open\<close> and \<open>pipe\<close> hand out the lowest closed slot.
\<close>

type_synonym fdtable = "resource option list"

definition fd_get :: "fdtable \<Rightarrow> nat \<Rightarrow> resource option" where
  "fd_get t fd = (if fd < length t then t ! fd else None)"

definition fd_put :: "fdtable \<Rightarrow> nat \<Rightarrow> resource \<Rightarrow> fdtable" where
  "fd_put t fd r = (t @ replicate (Suc fd - length t) None)[fd := Some r]"

fun lowest_free :: "fdtable \<Rightarrow> nat" where
  "lowest_free [] = 0"
| "lowest_free (None # t) = 0"
| "lowest_free (Some r # t) = Suc (lowest_free t)"

definition open_count :: "fdtable \<Rightarrow> nat" where
  "open_count t = length (filter (\<lambda>x. x \<noteq> None) t)"

definition sys_close :: "nat \<Rightarrow> fdtable \<Rightarrow> fdtable" where
  "sys_close fd t = (if fd < length t then t[fd := None] else t)"

text \<open>\<^verbatim>\<open>dup2(oldfd, newfd)\<close>: fails on a closed \<open>oldfd\<close>, does nothing when both are equal.\<close>

definition sys_dup2 :: "nat \<Rightarrow> nat \<Rightarrow> fdtable \<Rightarrow> fdtable" where
  "sys_dup2 oldfd newfd t =
     (case fd_get t oldfd of
        None \<Rightarrow> t
      | Some r \<Rightarrow> if oldfd = newfd then t else fd_put t newfd r)"

subsection \<open>The environment\<close>

record env =
  HOME :: "string option"
  chdir_ok :: "string \<Rightarrow> string \<Rightarrow> string option"
  open_ok :: "string \<Rightarrow> oflag list \<Rightarrow> bool"
  exec_ok :: "string \<Rightarrow> bool"
  fork_ok :: "nat \<Rightarrow> bool"
  pipe_ok :: "nat \<Rightarrow> bool"
  exits_first :: "nat list \<Rightarrow> nat option"
  today :: string
  now :: string

text \<open>
  \<open>HOME\<close> is \<^verbatim>\<open>getenv("HOME")\<close>; \<open>chdir_ok e cwd path\<close> is the directory \<^verbatim>\<open>chdir(path)\<close>
  reaches from \<open>cwd\<close>, \<open>None\<close> when it fails; \<open>fork_ok e n\<close> and \<open>pipe_ok e n\<close> say whether
  the call number \<open>n\<close> of \<^verbatim>\<open>fork\<close> and of \<^verbatim>\<open>pipe\<close> succeeds; \<open>exits_first e ps\<close> is the
  child, of the live children \<open>ps\<close> a blocking wait is waiting for, that terminates
  first (\<open>None\<close>: none of them ever does).
\<close>

subsection \<open>Child processes\<close>

datatype fate = Running | Replaced | Exited int | ExecNull

text \<open>
  A child runs the interpreter's code until it calls \<^verbatim>\<open>exit\<close> (\<open>Exited\<close>), until
  \<^verbatim>\<open>execvp\<close> replaces its image (\<open>Replaced\<close>), or until it calls \<^verbatim>\<open>execvp\<close> with a
  \<^verbatim>\<open>NULL\<close> file name, which the C library does not define (\<open>ExecNull\<close>). The record keeps
  what it did until then: its descriptor table, its calls of \<^verbatim>\<open>open\<close> (path, flags,
  mode), what it wrote (descriptor, text) and the arguments of its \<^verbatim>\<open>execvp\<close>.
\<close>

record child =
  cpid :: nat
  cfds :: fdtable
  copens :: "(string option \<times> oflag list \<times> nat) list"
  cmsgs :: "(nat \<times> string) list"
  cexec :: "(string option \<times> string list) option"
  cfate :: fate

datatype pstate = Live | Zombie

datatype run_state = Reading | Terminated int | Blocked

text \<open>
  The interpreter process: its descriptors and working directory, what it wrote, every
  child it created (oldest first), the children it has not reaped, the number of
  \<^verbatim>\<open>fork\<close> and \<^verbatim>\<open>pipe\<close> calls made, and whether it is still reading lines, has exited
  with a status, or is blocked for ever in a wait.
\<close>

record shell =
  fds :: fdtable
  cwd :: string
  out :: "(nat \<times> string) list"
  children :: "child list"
  ptable :: "(nat \<times> pstate) list"
  nforks :: nat
  npipes :: nat
  status :: run_state

definition NL :: char where
  "NL = CHR 0x0A"

definition printf :: "string \<Rightarrow> shell \<Rightarrow> shell" where
  "printf msg s = s\<lparr>out := out s @ [(1, msg)]\<rparr>"

definition perror :: "string \<Rightarrow> shell \<Rightarrow> shell" where
  "perror msg s = s\<lparr>out := out s @ [(2, msg)]\<rparr>"

definition sys_pipe :: "env \<Rightarrow> shell \<Rightarrow> (nat \<times> nat) option \<times> shell" where
  "sys_pipe e s =
     (if pipe_ok e (npipes s) then
        (let r = lowest_free (fds s);
             t1 = fd_put (fds s) r (PipeRead (npipes s));
             w = lowest_free t1;
             t2 = fd_put t1 w (PipeWrite (npipes s))
         in (Some (r, w), s\<lparr>fds := t2, npipes := Suc (npipes s)\<rparr>))
      else (None, s\<lparr>npipes := Suc (npipes s)\<rparr>))"

definition sys_fork :: "env \<Rightarrow> shell \<Rightarrow> nat option \<times> shell" where
  "sys_fork e s =
     (if fork_ok e (nforks s) then (Some (Suc (nforks s)), s\<lparr>nforks := Suc (nforks s)\<rparr>)
      else (None, s\<lparr>nforks := Suc (nforks s)\<rparr>))"

text \<open>The child starts with a copy of the parent's descriptor table.\<close>

definition new_child :: "nat \<Rightarrow> shell \<Rightarrow> child" where
  "new_child pid s =
     \<lparr>cpid = pid, cfds = fds s, copens = [], cmsgs = [], cexec = None, cfate = Running\<rparr>"

definition register :: "child \<Rightarrow> shell \<Rightarrow> shell" where
  "register c s = s\<lparr>children := children s @ [c], ptable := ptable s @ [(cpid c, Live)]\<rparr>"

subsection \<open>Waiting\<close>

definition reap :: "nat \<Rightarrow> (nat \<times> pstate) list \<Rightarrow> (nat \<times> pstate) list" where
  "reap p t = filter (\<lambda>q. fst q \<noteq> p) t"

text \<open>\<^verbatim>\<open>waitpid(pid, NULL, WNOHANG)\<close>: reaps \<open>pid\<close> if it is a zombie, never blocks.\<close>

definition sys_waitpid_nohang :: "nat \<Rightarrow> (nat \<times> pstate) list \<Rightarrow> (nat \<times> pstate) list" where
  "sys_waitpid_nohang pid t = (if map_of t pid = Some Zombie then reap pid t else t)"

text \<open>
  \<^verbatim>\<open>wait(NULL)\<close>: returns at once when there is no child or when some child is a zombie
  (which it reaps); otherwise it blocks until the first live child terminates.
  \<open>None\<close>: it never returns.
\<close>

definition sys_wait :: "env \<Rightarrow> (nat \<times> pstate) list \<Rightarrow> (nat \<times> pstate) list option" where
  "sys_wait e t =
     (case filter (\<lambda>q. snd q = Zombie) t of
        z # _ \<Rightarrow> Some (reap (fst z) t)
      | [] \<Rightarrow>
          if t = [] then Some t
          else (case exits_first e (map fst t) of
                  None \<Rightarrow> None
                | Some p \<Rightarrow> if p \<in> set (map fst t) then Some (reap p t) else None))"

text \<open>\<^verbatim>\<open>waitpid(pid, NULL, 0)\<close>: blocks until the child \<open>pid\<close> has terminated.\<close>

definition sys_waitpid :: "env \<Rightarrow> nat \<Rightarrow> (nat \<times> pstate) list \<Rightarrow> (nat \<times> pstate) list option" where
  "sys_waitpid e pid t =
     (case map_of t pid of
        None \<Rightarrow> Some t
      | Some Zombie \<Rightarrow> Some (reap pid t)
      | Some Live \<Rightarrow> if exits_first e [pid] = Some pid then Some (reap pid t) else None)"

section \<open>The tokenizer of \<^verbatim>\<open>main\<close>\<close>

text \<open>\<^verbatim>\<open>command[strcspn(command, "\n")] = 0\<close>: the line ends at its first newline.\<close>

definition chomp :: "string \<Rightarrow> string" where
  "chomp command = takeWhile (\<lambda>c. c \<noteq> NL) command"

text \<open>
  \<^verbatim>\<open>strtok(s, " ")\<close>: skips the leading spaces; the token runs to the next space, and the
  scan resumes behind that space. \<open>None\<close> is the \<^verbatim>\<open>NULL\<close> it returns when nothing is left.
\<close>

definition strtok :: "string \<Rightarrow> (string \<times> string) option" where
  "strtok s =
     (let s1 = dropWhile (\<lambda>c. c = CHR '' '') s in
      if s1 = [] then None
      else Some (takeWhile (\<lambda>c. c \<noteq> CHR '' '') s1, drop 1 (dropWhile (\<lambda>c. c \<noteq> CHR '' '') s1)))"

text \<open>\<^verbatim>\<open>while (token != NULL && i < 10) { args[i++] = token; token = strtok(NULL, " "); }\<close>\<close>

function tokenize_loop :: "nat \<Rightarrow> (string \<times> string) option \<Rightarrow> string list" where
  "tokenize_loop i token =
     (case token of
        None \<Rightarrow> []
      | Some (tok, rest) \<Rightarrow> if i < 10 then tok # tokenize_loop (i + 1) (strtok rest) else [])"
  by pat_completeness auto
termination
  by (relation "measure (\<lambda>(i, token). 10 - i)") auto

definition tokenize :: "string \<Rightarrow> string list" where
  "tokenize command = tokenize_loop 0 (strtok (chomp command))"

text \<open>
  The array \<^verbatim>\<open>args\<close>: the tokens, then the \<^verbatim>\<open>NULL\<close> that \<^verbatim>\<open>args[i] = NULL\<close> stores. The
  slots behind it are never read.
\<close>

definition args_of :: "string list \<Rightarrow> string option list" where
  "args_of toks = map Some toks @ [None]"

definition arg_at :: "string option list \<Rightarrow> nat \<Rightarrow> string option" where
  "arg_at parsed i = (if i < length parsed then parsed ! i else None)"

text \<open>The argument vector \<^verbatim>\<open>execvp\<close> reads at \<^verbatim>\<open>&parsed[k]\<close>: the entries up to the first \<^verbatim>\<open>NULL\<close>.\<close>

definition argv_at :: "string option list \<Rightarrow> nat \<Rightarrow> string list" where
  "argv_at parsed k = map the (takeWhile (\<lambda>x. x \<noteq> None) (drop k parsed))"

section \<open>Redirection\<close>

definition sys_open :: "env \<Rightarrow> string option \<Rightarrow> oflag list \<Rightarrow> nat \<Rightarrow> child \<Rightarrow> nat option \<times> child" where
  "sys_open e path flags mode c =
     (let c1 = c\<lparr>copens := copens c @ [(path, flags, mode)]\<rparr> in
      case path of
        None \<Rightarrow> (None, c1)
      | Some p \<Rightarrow>
          if open_ok e p flags
          then (Some (lowest_free (cfds c)),
                c1\<lparr>cfds := fd_put (cfds c) (lowest_free (cfds c)) (OpenFile p flags mode)\<rparr>)
          else (None, c1))"

text \<open>
  The functions a child runs return \<open>Inl\<close> when the child has stopped running the
  interpreter's code (by \<^verbatim>\<open>exit\<close> or a successful \<^verbatim>\<open>execvp\<close>) and \<open>Inr\<close> when they return
  to their caller.
\<close>

definition child_exit :: "int \<Rightarrow> child \<Rightarrow> child + child" where
  "child_exit st c = Inl (c\<lparr>cfate := Exited st\<rparr>)"

definition child_print :: "nat \<Rightarrow> string \<Rightarrow> child \<Rightarrow> child" where
  "child_print fd msg c = c\<lparr>cmsgs := cmsgs c @ [(fd, msg)]\<rparr>"

definition inputRedirection :: "env \<Rightarrow> string option list \<Rightarrow> nat \<Rightarrow> child \<Rightarrow> child + child" where
  "inputRedirection e cmd input_file_pos c =
     (case sys_open e (arg_at cmd (input_file_pos + 1)) [O_RDONLY] 0 c of
        (None, c1) \<Rightarrow> child_exit 1 (child_print 2 ''Error opening file'' c1)
      | (Some fd, c1) \<Rightarrow> Inr (c1\<lparr>cfds := sys_close fd (sys_dup2 fd 0 (cfds c1))\<rparr>))"

text \<open>The mode \<^verbatim>\<open>0777\<close> is 511; \<open>append_f\<close> is the source's \<^verbatim>\<open>append\<close>.\<close>

definition outputRedirection :: "env \<Rightarrow> string option list \<Rightarrow> nat \<Rightarrow> int \<Rightarrow> child \<Rightarrow> child + child" where
  "outputRedirection e cmd output_file_pos append_f c =
     (case (if append_f \<noteq> 0
            then sys_open e (arg_at cmd (output_file_pos + 1)) [O_WRONLY, O_CREAT, O_APPEND] 511 c
            else sys_open e (arg_at cmd (output_file_pos + 1)) [O_WRONLY, O_CREAT, O_TRUNC] 511 c) of
        (None, c1) \<Rightarrow> child_exit 1 (child_print 2 ''Error opening file'' c1)
      | (Some fd, c1) \<Rightarrow> Inr (c1\<lparr>cfds := sys_close fd (sys_dup2 fd 1 (cfds c1))\<rparr>))"

text \<open>
  \<^verbatim>\<open>execvp(parsed[k], &parsed[k])\<close>: \<open>Inr\<close> is the return with \<^verbatim>\<open>-1\<close> when the program
  cannot be executed.
\<close>

definition sys_execvp :: "env \<Rightarrow> string option list \<Rightarrow> nat \<Rightarrow> child \<Rightarrow> child + child" where
  "sys_execvp e parsed k c =
     (let c1 = c\<lparr>cexec := Some (arg_at parsed k, argv_at parsed k)\<rparr> in
      case arg_at parsed k of
        None \<Rightarrow> Inl (c1\<lparr>cfate := ExecNull\<rparr>)
      | Some file \<Rightarrow> if exec_ok e file then Inl (c1\<lparr>cfate := Replaced\<rparr>) else Inr c1)"

section \<open>\<^verbatim>\<open>pipeCommands\<close>\<close>

definition first_child :: "env \<Rightarrow> string option list \<Rightarrow> int \<Rightarrow> nat \<Rightarrow> nat \<Rightarrow> nat \<Rightarrow> child \<Rightarrow> child" where
  "first_child e parsed input_redirection input_file_pos p0 p1 c0 =
     (let c1 = c0\<lparr>cfds := sys_close p1 (sys_dup2 p1 1 (sys_close p0 (cfds c0)))\<rparr> in
      case (if input_redirection = 1 then inputRedirection e parsed input_file_pos c1 else Inr c1) of
        Inl c \<Rightarrow> c
      | Inr c2 \<Rightarrow>
          (case sys_execvp e parsed 0 c2 of
             Inl c \<Rightarrow> c
           | Inr c3 \<Rightarrow> (child_print 2 ''First command execution failed'' c3)\<lparr>cfate := Exited 1\<rparr>))"

definition second_child :: "env \<Rightarrow> string option list \<Rightarrow> int \<Rightarrow> int \<Rightarrow> nat \<Rightarrow> nat \<Rightarrow> nat \<Rightarrow> nat \<Rightarrow> child \<Rightarrow> child" where
  "second_child e parsed output_redirection append_f output_file_pos piped_cmd_pos p0 p1 c0 =
     (let c1 = c0\<lparr>cfds := sys_close p0 (sys_dup2 p0 0 (sys_close p1 (cfds c0)))\<rparr> in
      case (if output_redirection = 1 \<or> append_f = 1
            then outputRedirection e parsed output_file_pos append_f c1 else Inr c1) of
        Inl c \<Rightarrow> c
      | Inr c2 \<Rightarrow>
          (case sys_execvp e parsed piped_cmd_pos c2 of
             Inl c \<Rightarrow> c
           | Inr c3 \<Rightarrow> (child_print 2 ''Second command execution failed'' c3)\<lparr>cfate := Exited 1\<rparr>))"

definition pipeCommands ::
  "env \<Rightarrow> string option list \<Rightarrow> int \<Rightarrow> int \<Rightarrow> int \<Rightarrow> int \<Rightarrow> nat \<Rightarrow> nat \<Rightarrow> nat \<Rightarrow> shell \<Rightarrow> shell" where
  "pipeCommands e parsed background output_redirection append_f input_redirection
       output_file_pos input_file_pos piped_cmd_pos s =
     (case sys_pipe e s of
        (None, s1) \<Rightarrow> perror ''Pipe creation failed'' s1
      | (Some (p0, p1), s1) \<Rightarrow>
          (case sys_fork e s1 of
             (None, s2) \<Rightarrow> perror ''Fork failed'' s2
           | (Some pid1, s2) \<Rightarrow>
               (let s3 = register (first_child e parsed input_redirection input_file_pos p0 p1
                                     (new_child pid1 s2)) s2 in
                case sys_fork e s3 of
                  (None, s4) \<Rightarrow> perror ''Second fork failed'' s4
                | (Some pid2, s4) \<Rightarrow>
                    (let s5 = register (second_child e parsed output_redirection append_f
                                          output_file_pos piped_cmd_pos p0 p1 (new_child pid2 s4)) s4;
                         s6 = s5\<lparr>fds := sys_close p1 (sys_close p0 (fds s5))\<rparr>
                     in if background = 1 then s6
                        else (case sys_waitpid e pid1 (ptable s6) of
                                None \<Rightarrow> s6\<lparr>status := Blocked\<rparr>
                              | Some t1 \<Rightarrow>
                                  (case sys_waitpid e pid2 t1 of
                                     None \<Rightarrow> s6\<lparr>ptable := t1, status := Blocked\<rparr>
                                   | Some t2 \<Rightarrow> s6\<lparr>ptable := t2\<rparr>))))))"

section \<open>\<^verbatim>\<open>execCmd\<close>\<close>

text \<open>The local variables of \<^verbatim>\<open>execCmd\<close>.\<close>

record locals =
  background :: int
  append_f :: int
  output_redirection :: int
  input_redirection :: int
  input_file_pos :: nat
  output_file_pos :: nat
  is_pipe :: int
  piped_cmd_pos :: nat

definition locals0 :: locals where
  "locals0 = \<lparr>background = 0, append_f = 0, output_redirection = 0, input_redirection = 0,
               input_file_pos = 0, output_file_pos = 0, is_pipe = 0, piped_cmd_pos = 0\<rparr>"

text \<open>
  One turn of the loop ``check for special characters'' on the non-\<^verbatim>\<open>NULL\<close> entry \<open>tok\<close>
  at index \<open>i\<close>. The \<^verbatim>\<open>pipe(pipe_fd)\<close> of the last branch fills a local array that nothing
  reads afterwards.
\<close>

definition classify_token ::
  "env \<Rightarrow> nat \<Rightarrow> string \<Rightarrow> string option list \<times> locals \<times> shell \<Rightarrow> string option list \<times> locals \<times> shell" where
  "classify_token e i tok st =
     (case st of (parsed, v, s) \<Rightarrow>
        if tok = ''&'' then (parsed[i := None], v\<lparr>background := 1\<rparr>, s)
        else if tok = ''>'' then
          (parsed[i := None], v\<lparr>output_redirection := 1, output_file_pos := i\<rparr>, s)
        else if tok = ''>>'' then
          (parsed[i := None], v\<lparr>append_f := 1, output_file_pos := i\<rparr>, s)
        else if tok = ''<'' then
          (parsed[i := None], v\<lparr>input_redirection := 1, input_file_pos := i\<rparr>, s)
        else if tok = ''|'' then
          (parsed[i := None], v\<lparr>is_pipe := 1, piped_cmd_pos := i + 1\<rparr>, snd (sys_pipe e s))
        else (parsed, v, s))"

function classify_loop ::
  "env \<Rightarrow> nat \<Rightarrow> string option list \<times> locals \<times> shell \<Rightarrow> string option list \<times> locals \<times> shell" where
  "classify_loop e i st =
     (if i < 10 then
        (case arg_at (fst st) i of
           None \<Rightarrow> st
         | Some tok \<Rightarrow> classify_loop e (i + 1) (classify_token e i tok st))
      else st)"
  by pat_completeness auto
termination
  by (relation "measure (\<lambda>(e, i, st). 10 - i)") auto

definition single_child :: "env \<Rightarrow> string option list \<Rightarrow> locals \<Rightarrow> child \<Rightarrow> child" where
  "single_child e parsed v c0 =
     (case (if output_redirection v = 1 \<or> append_f v = 1
            then outputRedirection e parsed (output_file_pos v) (append_f v) c0 else Inr c0) of
        Inl c \<Rightarrow> c
      | Inr c1 \<Rightarrow>
          (case (if input_redirection v = 1
                 then inputRedirection e parsed (input_file_pos v) c1 else Inr c1) of
             Inl c \<Rightarrow> c
           | Inr c2 \<Rightarrow>
               (case sys_execvp e parsed 0 c2 of
                  Inl c \<Rightarrow> c
                | Inr c3 \<Rightarrow>
                    (child_print 1 (NL # ''Could not execute command..'' @ [NL]) c3)
                      \<lparr>cfate := Exited 0\<rparr>)))"

definition execCmd :: "env \<Rightarrow> string option list \<Rightarrow> shell \<Rightarrow> shell" where
  "execCmd e parsed0 s0 =
     (case classify_loop e 0 (parsed0, locals0, s0) of (parsed, v, s) \<Rightarrow>
        if is_pipe v = 1 then
          pipeCommands e parsed (background v) (output_redirection v) (append_f v)
            (input_redirection v) (output_file_pos v) (input_file_pos v) (piped_cmd_pos v) s
        else
          (case sys_fork e s of
             (None, s1) \<Rightarrow> printf (NL # ''Failed forking child..'') s1
           | (Some pid, s1) \<Rightarrow>
               (let s2 = register (single_child e parsed v (new_child pid s1)) s1 in
                if background v = 1 then s2\<lparr>ptable := sys_waitpid_nohang pid (ptable s2)\<rparr>
                else (case sys_wait e (ptable s2) of
                        None \<Rightarrow> s2\<lparr>status := Blocked\<rparr>
                      | Some t \<Rightarrow> s2\<lparr>ptable := t\<rparr>))))"

section \<open>\<^verbatim>\<open>main\<close>\<close>

definition welcomeMessage :: "env \<Rightarrow> shell \<Rightarrow> shell" where
  "welcomeMessage e s =
     printf (''**************************************************'' @ [NL, NL])
    (printf (''*                 Time: '' @ now e @ ''                 *'' @ [NL])
    (printf (''*                 Date: '' @ today e @ ''               *'' @ [NL])
    (printf (''*                                                *'' @ [NL])
    (printf (''*                Jacob Leonardo                  *'' @ [NL])
    (printf (''*                  Created by                    *'' @ [NL])
    (printf (''*             Welcome to SeaShell                *'' @ [NL])
    (printf (''**************************************************'' @ [NL]) s)))))))"

definition prompt :: "shell \<Rightarrow> shell" where
  "prompt s = printf (NL # ''SeaShell> '') s"

text \<open>
  The body of the loop behind \<^verbatim>\<open>fgets\<close>: \<open>command\<close> is what \<^verbatim>\<open>fgets\<close> stored (at most 99
  characters, with the newline when the line had room for it).
\<close>

definition process_line :: "env \<Rightarrow> shell \<Rightarrow> string \<Rightarrow> shell" where
  "process_line e s command =
     (let args = args_of (tokenize command) in
      case arg_at args 0 of
        None \<Rightarrow> s
      | Some a0 \<Rightarrow>
          if a0 = ''exit'' then s\<lparr>status := Terminated 1\<rparr>
          else if a0 = ''cd'' then
            (case arg_at args 1 of
               None \<Rightarrow> s
             | Some a1 \<Rightarrow>
                 if a1 = ''~'' then
                   (case (case HOME e of None \<Rightarrow> None | Some home \<Rightarrow> chdir_ok e (cwd s) home) of
                      Some d \<Rightarrow> printf (''Changed directory to home.'' @ [NL]) (s\<lparr>cwd := d\<rparr>)
                    | None \<Rightarrow>
                        (perror (''Error: Failed to change directory to home.'' @ [NL]) s)
                          \<lparr>status := Terminated 1\<rparr>)
                 else
                   (case chdir_ok e (cwd s) a1 of
                      Some d \<Rightarrow> s\<lparr>cwd := d\<rparr>
                    | None \<Rightarrow> perror (''Error: Failed to change directory.'' @ [NL]) s))
          else execCmd e args s)"

text \<open>
  The loop of \<^verbatim>\<open>main\<close> over what happens while it runs: a line arrives on standard
  input, or a live child terminates (and stays a zombie until it is reaped). The end
  of the list is the end of the input, where \<^verbatim>\<open>fgets\<close> returns \<^verbatim>\<open>NULL\<close> and \<^verbatim>\<open>main\<close>
  returns 0.
\<close>

datatype event = Line string | ChildExit nat

definition child_exits :: "nat \<Rightarrow> shell \<Rightarrow> shell" where
  "child_exits p s = s\<lparr>ptable := map (\<lambda>q. if fst q = p then (p, Zombie) else q) (ptable s)\<rparr>"

fun main_loop :: "env \<Rightarrow> shell \<Rightarrow> event list \<Rightarrow> shell" where
  "main_loop e s [] = (prompt s)\<lparr>status := Terminated 0\<rparr>"
| "main_loop e s (ChildExit p # evs) = main_loop e (child_exits p s) evs"
| "main_loop e s (Line command # evs) =
     (let s1 = process_line e (prompt s) command in
      if status s1 = Reading then main_loop e s1 evs else s1)"

definition main :: "env \<Rightarrow> shell \<Rightarrow> event list \<Rightarrow> shell" where
  "main e s evs = main_loop e (welcomeMessage e s) evs"

section \<open>Notions used in the statements\<close>

text \<open>The five tokens the loop of \<^verbatim>\<open>execCmd\<close> compares with.\<close>

definition is_operator :: "string \<Rightarrow> bool" where
  "is_operator t = (t = ''&'' \<or> t = ''>'' \<or> t = ''>>'' \<or> t = ''<'' \<or> t = ''|'')"

text \<open>The array after the loop: every operator token has become \<^verbatim>\<open>NULL\<close>.\<close>

definition mask :: "string list \<Rightarrow> string option list" where
  "mask toks = map (\<lambda>t. if is_operator t then None else Some t) toks"

text \<open>
  What the turns of the loop on the tokens \<open>ts\<close>, the first of them at index \<open>i\<close>, do
  to the local variables and to the parent (\<open>classify_token\<close> token by token).
\<close>

fun scan :: "env \<Rightarrow> nat \<Rightarrow> string list \<Rightarrow> locals \<times> shell \<Rightarrow> locals \<times> shell" where
  "scan e i [] vs = vs"
| "scan e i (t # ts) vs = scan e (Suc i) ts (snd (classify_token e i t ([], fst vs, snd vs)))"

text \<open>
  A sample environment in which every call succeeds, and the interpreter as it starts:
  the three standard streams open, no child.
\<close>

definition env0 :: env where
  "env0 = \<lparr>HOME = Some ''/home/user'', chdir_ok = (\<lambda>d p. Some p), open_ok = (\<lambda>p f. True),
            exec_ok = (\<lambda>p. True), fork_ok = (\<lambda>n. True), pipe_ok = (\<lambda>n. True),
            exits_first = (\<lambda>ps. if ps = [] then None else Some (last ps)),
            today = ''04/09/2025'', now = ''12:00:00''\<rparr>"

definition shell0 :: shell where
  "shell0 = \<lparr>fds = [Some (Inherited 0), Some (Inherited 1), Some (Inherited 2)], cwd = ''/'',
              out = [], children = [], ptable = [], nforks = 0, npipes = 0, status = Reading\<rparr>"

definition out_flags :: "int \<Rightarrow> oflag list" where
  "out_flags a = (if a \<noteq> 0 then [O_WRONLY, O_CREAT, O_APPEND] else [O_WRONLY, O_CREAT, O_TRUNC])"

text \<open>What the claim C8 takes the argument vector to be: the tokens without the operator
  tokens and without the token behind a redirection operator.\<close>

fun spec_argv :: "string list \<Rightarrow> string list" where
  "spec_argv [] = []"
| "spec_argv (t # ts) =
     (if t = ''>'' \<or> t = ''>>'' \<or> t = ''<'' then spec_argv (drop 1 ts)
      else if is_operator t then spec_argv ts
      else t # spec_argv ts)"

definition env_noexec :: env where
  "env_noexec = env0\<lparr>exec_ok := \<lambda>p. False\<rparr>"

definition env_nochdir :: env where
  "env_nochdir = env0\<lparr>chdir_ok := \<lambda>d p. None\<rparr>"

text \<open>
  Every pipe in a descriptor table carries the number of the \<^verbatim>\<open>pipe\<close> call that made it;
  in a table with \<open>pipes_below n\<close> these numbers are below \<open>n\<close>.
\<close>

definition pipes_below :: "nat \<Rightarrow> fdtable \<Rightarrow> bool" where
  "pipes_below n t =
     list_all (\<lambda>x. case x of Some (PipeRead k) \<Rightarrow> k < n | Some (PipeWrite k) \<Rightarrow> k < n | _ \<Rightarrow> True) t"

text \<open>
  An \<^verbatim>\<open>open\<close> call of a child, as \<open>copens\<close> records it, succeeded: its path was not
  \<^verbatim>\<open>NULL\<close> and the file could be opened with its flags.
\<close>

definition opened :: "env \<Rightarrow> string option \<times> oflag list \<times> nat \<Rightarrow> bool" where
  "opened e x = (case fst x of None \<Rightarrow> False | Some p \<Rightarrow> open_ok e p (fst (snd x)))"

text \<open>
  What \<^verbatim>\<open>execvp\<close> is to be handed for a stage whose tokens are \<open>ts\<close>: as argument vector
  the tokens before the first operator token, as program name the first of them
  (\<^verbatim>\<open>NULL\<close> when there is none).
\<close>

definition stage_argv :: "string list \<Rightarrow> string list" where
  "stage_argv ts = takeWhile (\<lambda>t. \<not> is_operator t) ts"

definition stage_file :: "string list \<Rightarrow> string option" where
  "stage_file ts = (case stage_argv ts of [] \<Rightarrow> None | t # _ \<Rightarrow> Some t)"

text \<open>
  What a program does with its descriptors once it runs. A pipe carries bytes from its
  write end to its read end, in order: \<open>b k\<close> is what the pipe number \<open>k\<close> holds,
  \<^verbatim>\<open>write\<close> on a write end appends to it, and \<^verbatim>\<open>read\<close> on a read end takes from it.
\<close>

type_synonym pipes = "nat \<Rightarrow> string"

definition sys_write :: "fdtable \<Rightarrow> nat \<Rightarrow> string \<Rightarrow> pipes \<Rightarrow> pipes" where
  "sys_write t fd bytes b =
     (case fd_get t fd of Some (PipeWrite k) \<Rightarrow> b(k := b k @ bytes) | _ \<Rightarrow> b)"

definition sys_read :: "fdtable \<Rightarrow> nat \<Rightarrow> pipes \<Rightarrow> string option" where
  "sys_read t fd b = (case fd_get t fd of Some (PipeRead k) \<Rightarrow> Some (b k) | _ \<Rightarrow> None)"

section \<open>The tokenizer\<close>

lemma tokenize_loop_length: "length (tokenize_loop i token) \<le> 10 - i"
proof (induction i token rule: tokenize_loop.induct)
  case (1 i token)
  show ?case
  proof (cases token)
    case None
    then show ?thesis by simp
  next
    case (Some p)
    obtain tok rest where p: "p = (tok, rest)" by (cases p)
    show ?thesis
    proof (cases "i < 10")
      case True
      with 1 [OF Some p [symmetric]] Some p show ?thesis by simp
    next
      case False
      with Some p show ?thesis by simp
    qed
  qed
qed

lemma tokenize_length: "length (tokenize command) \<le> 10"
  using tokenize_loop_length [of 0] by (simp add: tokenize_def)

lemma strtok_None: "strtok s = None \<longleftrightarrow> (\<forall>c\<in>set s. c = CHR '' '')"
  by (auto simp: strtok_def Let_def dropWhile_eq_Nil_conv)

lemma tokenize_Nil: "tokenize command = [] \<longleftrightarrow> (\<forall>c\<in>set (chomp command). c = CHR '' '')"
proof -
  have "tokenize_loop 0 tk = [] \<longleftrightarrow> tk = None" for tk
    by (cases tk) auto
  then show ?thesis by (simp add: tokenize_def strtok_None)
qed

section \<open>The classification loop\<close>

lemma classify_token_fst:
  "fst (classify_token e i t (p, v, s)) = (if is_operator t then p[i := None] else p)"
  by (simp add: classify_token_def is_operator_def)

lemma classify_token_snd:
  "snd (classify_token e i t (p, v, s)) = snd (classify_token e i t ([], v, s))"
  by (simp add: classify_token_def)

declare classify_loop.simps [simp del]

lemma classify_loop_Some:
  "i < 10 \<Longrightarrow> arg_at p i = Some t \<Longrightarrow>
   classify_loop e i (p, v, s) = classify_loop e (Suc i) (classify_token e i t (p, v, s))"
  by (subst classify_loop.simps) simp

lemma classify_loop_stop:
  "\<not> i < 10 \<or> arg_at p i = None \<Longrightarrow> classify_loop e i (p, v, s) = (p, v, s)"
  by (subst classify_loop.simps) auto

lemma classify_loop_scan:
  "length xs + length ts \<le> 10 \<Longrightarrow>
   classify_loop e (length xs) (xs @ map Some ts @ [None], v, s) =
     (xs @ mask ts @ [None], scan e (length xs) ts (v, s))"
proof (induction ts arbitrary: xs v s)
  case Nil
  show ?case
    by (simp add: classify_loop_stop arg_at_def mask_def)
next
  case (Cons t ts)
  let ?p = "xs @ map Some (t # ts) @ [None]"
  let ?m = "if is_operator t then None else Some t"
  obtain v' s' where vs: "snd (classify_token e (length xs) t ([], v, s)) = (v', s')"
    by (cases "snd (classify_token e (length xs) t ([], v, s))")
  have f: "fst (classify_token e (length xs) t (?p, v, s)) = (xs @ [?m]) @ map Some ts @ [None]"
    by (simp add: classify_token_fst)
  have ct: "classify_token e (length xs) t (?p, v, s) = ((xs @ [?m]) @ map Some ts @ [None], v', s')"
    using f vs classify_token_snd [of e "length xs" t ?p v s]
    by (metis prod.collapse)
  have lt: "length xs < 10" using Cons.prems by simp
  have a: "arg_at ?p (length xs) = Some t" by (simp add: arg_at_def nth_append)
  have "classify_loop e (length xs) (?p, v, s) =
          classify_loop e (Suc (length xs)) (classify_token e (length xs) t (?p, v, s))"
    by (rule classify_loop_Some [OF lt a])
  also have "\<dots> = classify_loop e (length (xs @ [?m])) ((xs @ [?m]) @ map Some ts @ [None], v', s')"
    by (simp only: ct length_append_singleton)
  also have "\<dots> = ((xs @ [?m]) @ mask ts @ [None], scan e (length (xs @ [?m])) ts (v', s'))"
    using Cons.prems by (intro Cons.IH) simp
  finally show ?case by (simp add: mask_def vs)
qed

lemma classify_args:
  "length toks \<le> 10 \<Longrightarrow>
   classify_loop e 0 (args_of toks, v, s) = (mask toks @ [None], scan e 0 toks (v, s))"
  using classify_loop_scan [of "[]" toks e v s] by (simp add: args_of_def)


subsection \<open>The effect of the loop on the local variables and on the parent\<close>

lemma scan_plain: "\<not> is_operator t \<Longrightarrow> scan e i (t # ts) vs = scan e (Suc i) ts vs"
  by (simp add: classify_token_def is_operator_def)

lemma scan_amp:
  "scan e i (''&'' # ts) (v, s) = scan e (Suc i) ts (v\<lparr>background := 1\<rparr>, s)"
  by (simp add: classify_token_def)

lemma scan_gt:
  "scan e i (''>'' # ts) (v, s) =
     scan e (Suc i) ts (v\<lparr>output_redirection := 1, output_file_pos := i\<rparr>, s)"
  by (simp add: classify_token_def)

lemma scan_gtgt:
  "scan e i (''>>'' # ts) (v, s) =
     scan e (Suc i) ts (v\<lparr>append_f := 1, output_file_pos := i\<rparr>, s)"
  by (simp add: classify_token_def)

lemma scan_lt:
  "scan e i (''<'' # ts) (v, s) =
     scan e (Suc i) ts (v\<lparr>input_redirection := 1, input_file_pos := i\<rparr>, s)"
  by (simp add: classify_token_def)

lemma scan_bar:
  "scan e i (''|'' # ts) (v, s) =
     scan e (Suc i) ts (v\<lparr>is_pipe := 1, piped_cmd_pos := Suc i\<rparr>, snd (sys_pipe e s))"
  by (simp add: classify_token_def)

lemma scan_cases:
  "scan e i (t # ts) (v, s) =
     (if t = ''&'' then scan e (Suc i) ts (v\<lparr>background := 1\<rparr>, s)
      else if t = ''>'' then scan e (Suc i) ts (v\<lparr>output_redirection := 1, output_file_pos := i\<rparr>, s)
      else if t = ''>>'' then scan e (Suc i) ts (v\<lparr>append_f := 1, output_file_pos := i\<rparr>, s)
      else if t = ''<'' then scan e (Suc i) ts (v\<lparr>input_redirection := 1, input_file_pos := i\<rparr>, s)
      else if t = ''|'' then scan e (Suc i) ts (v\<lparr>is_pipe := 1, piped_cmd_pos := Suc i\<rparr>, snd (sys_pipe e s))
      else scan e (Suc i) ts (v, s))"
  by (simp add: classify_token_def)

lemma scan_append: "scan e i (a @ b) vs = scan e (i + length a) b (scan e i a vs)"
  by (induction a arbitrary: i vs) simp_all

declare scan.simps(2) [simp del]

lemma scan_background:
  "background (fst (scan e i ts (v, s))) = (if ''&'' \<in> set ts then 1 else background v)"
  by (induction ts arbitrary: i v s) (simp_all add: scan_cases)

lemma scan_output_redirection:
  "output_redirection (fst (scan e i ts (v, s))) =
     (if ''>'' \<in> set ts then 1 else output_redirection v)"
  by (induction ts arbitrary: i v s) (simp_all add: scan_cases)

lemma scan_append_f:
  "append_f (fst (scan e i ts (v, s))) = (if ''>>'' \<in> set ts then 1 else append_f v)"
  by (induction ts arbitrary: i v s) (simp_all add: scan_cases)

lemma scan_input_redirection:
  "input_redirection (fst (scan e i ts (v, s))) =
     (if ''<'' \<in> set ts then 1 else input_redirection v)"
  by (induction ts arbitrary: i v s) (simp_all add: scan_cases)

lemma scan_is_pipe:
  "is_pipe (fst (scan e i ts (v, s))) = (if ''|'' \<in> set ts then 1 else is_pipe v)"
  by (induction ts arbitrary: i v s) (simp_all add: scan_cases)

lemma scan_output_file_pos_keep:
  "''>'' \<notin> set ts \<Longrightarrow> ''>>'' \<notin> set ts \<Longrightarrow>
   output_file_pos (fst (scan e i ts (v, s))) = output_file_pos v"
  by (induction ts arbitrary: i v s) (auto simp: scan_cases)

lemma scan_input_file_pos_keep:
  "''<'' \<notin> set ts \<Longrightarrow> input_file_pos (fst (scan e i ts (v, s))) = input_file_pos v"
  by (induction ts arbitrary: i v s) (auto simp: scan_cases)

lemma scan_piped_cmd_pos_keep:
  "''|'' \<notin> set ts \<Longrightarrow> piped_cmd_pos (fst (scan e i ts (v, s))) = piped_cmd_pos v"
  by (induction ts arbitrary: i v s) (auto simp: scan_cases)

lemma scan_output_file_pos:
  assumes "t = ''>'' \<or> t = ''>>''" and "''>'' \<notin> set post" and "''>>'' \<notin> set post"
  shows "output_file_pos (fst (scan e i (pre @ t # post) vs)) = i + length pre"
proof -
  obtain v s where m: "scan e i pre vs = (v, s)" by (cases "scan e i pre vs")
  from assms show ?thesis
    by (auto simp: scan_append m scan_cases scan_output_file_pos_keep)
qed

lemma scan_input_file_pos:
  assumes "''<'' \<notin> set post"
  shows "input_file_pos (fst (scan e i (pre @ ''<'' # post) vs)) = i + length pre"
proof -
  obtain v s where m: "scan e i pre vs = (v, s)" by (cases "scan e i pre vs")
  from assms show ?thesis
    by (simp add: scan_append m scan_cases scan_input_file_pos_keep)
qed

lemma scan_piped_cmd_pos:
  assumes "''|'' \<notin> set post"
  shows "piped_cmd_pos (fst (scan e i (pre @ ''|'' # post) vs)) = Suc (i + length pre)"
proof -
  obtain v s where m: "scan e i pre vs = (v, s)" by (cases "scan e i pre vs")
  from assms show ?thesis
    by (simp add: scan_append m scan_cases scan_piped_cmd_pos_keep)
qed

lemma scan_shell_keep: "''|'' \<notin> set ts \<Longrightarrow> snd (scan e i ts (v, s)) = s"
  by (induction ts arbitrary: i v s) (auto simp: scan_cases)

lemma sys_pipe_frame:
  "children (snd (sys_pipe e s)) = children s \<and> out (snd (sys_pipe e s)) = out s \<and>
   cwd (snd (sys_pipe e s)) = cwd s \<and> status (snd (sys_pipe e s)) = status s \<and>
   nforks (snd (sys_pipe e s)) = nforks s \<and> ptable (snd (sys_pipe e s)) = ptable s"
  by (simp add: sys_pipe_def Let_def)

lemma scan_shell_frame:
  "children (snd (scan e i ts (v, s))) = children s \<and> out (snd (scan e i ts (v, s))) = out s \<and>
   cwd (snd (scan e i ts (v, s))) = cwd s \<and> status (snd (scan e i ts (v, s))) = status s \<and>
   nforks (snd (scan e i ts (v, s))) = nforks s \<and> ptable (snd (scan e i ts (v, s))) = ptable s"
  by (induction ts arbitrary: i v s) (simp_all add: scan_cases sys_pipe_frame)

lemma scan_shell_one_bar:
  assumes "''|'' \<notin> set pre" and "''|'' \<notin> set post"
  shows "snd (scan e i (pre @ ''|'' # post) (v, s)) = snd (sys_pipe e s)"
proof -
  obtain v1 s1 where m: "scan e i pre (v, s) = (v1, s1)" by (cases "scan e i pre (v, s)")
  with assms(1) have "s1 = s" using scan_shell_keep [of pre e i v s] by simp
  with assms(2) m show ?thesis
    by (simp add: scan_append scan_cases scan_shell_keep)
qed

subsection \<open>The array after the loop\<close>

lemma arg_at_mask:
  "arg_at (mask toks @ [None]) k =
     (if k < length toks \<and> \<not> is_operator (toks ! k) then Some (toks ! k) else None)"
  by (auto simp: arg_at_def mask_def nth_append)

lemma argv_mask_aux:
  "map the (takeWhile (\<lambda>x. x \<noteq> None) (mask xs @ replicate n None)) =
     takeWhile (\<lambda>t. \<not> is_operator t) xs"
proof (induction xs)
  case Nil
  show ?case by (cases n) (simp_all add: mask_def)
next
  case (Cons x xs)
  then show ?case by (simp add: mask_def)
qed

lemma argv_at_mask:
  "argv_at (mask toks @ [None]) k = takeWhile (\<lambda>t. \<not> is_operator t) (drop k toks)"
proof -
  have "drop k (mask toks @ [None]) =
          mask (drop k toks) @ replicate (if k \<le> length toks then 1 else 0) None"
    by (simp add: mask_def drop_map)
  then show ?thesis
    unfolding argv_at_def using argv_mask_aux by simp
qed

section \<open>Lines without a command\<close>

text \<open>
  C9. A line that holds no token (the empty line, or spaces only) leaves the array with
  \<^verbatim>\<open>args[0] = NULL\<close>, so none of the three branches of \<^verbatim>\<open>main\<close> is taken: no child is
  created, nothing is reported, nothing changes, and the loop goes on to print the
  next prompt.
\<close>

theorem C9_blank_line:
  assumes "\<forall>c\<in>set (chomp command). c = CHR '' ''"
  shows "tokenize command = [] \<and>
         arg_at (args_of (tokenize command)) 0 = None \<and>
         process_line e s command = s \<and>
         main_loop e s (Line command # evs) =
           (if status s = Reading then main_loop e (prompt s) evs else prompt s)"
proof -
  from assms have t: "tokenize command = []" by (simp add: tokenize_Nil)
  then have p: "process_line e s' command = s'" for s'
    by (simp add: process_line_def args_of_def arg_at_def)
  have "status (prompt s) = status s" by (simp add: prompt_def printf_def)
  with t p show ?thesis by (simp add: args_of_def arg_at_def)
qed

theorem C9_blank_line_witness:
  "chomp (''   '' @ [NL]) = ''   '' \<and>
   process_line env0 shell0 (''   '' @ [NL]) = shell0 \<and>
   main_loop env0 shell0 [Line (''   '' @ [NL])] = (prompt (prompt shell0))\<lparr>status := Terminated 0\<rparr>"
  using C9_blank_line [of "''   '' @ [NL]" env0 shell0 "[]"]
  by (simp add: chomp_def NL_def shell0_def)

text \<open>
  C10. \<^verbatim>\<open>cd\<close> without a path: \<^verbatim>\<open>args[1]\<close> is \<^verbatim>\<open>NULL\<close> and the built-in does nothing at
  all: the directory, the output and the children are as before.
\<close>

theorem C10_cd_without_path:
  "tokenize command = [''cd''] \<Longrightarrow> process_line e s command = s"
  by (simp add: process_line_def args_of_def arg_at_def)

theorem C10_cd_without_path_witness:
  "tokenize ''cd'' = [''cd''] \<and> process_line env0 shell0 ''cd'' = shell0"
proof -
  have t: "tokenize ''cd'' = [''cd'']"
    by (simp add: tokenize_def chomp_def strtok_def NL_def)
  from t C10_cd_without_path [OF t, of env0 shell0] show ?thesis by simp
qed

lemma process_line_exec:
  "tokenize command = t # ts \<Longrightarrow> t \<noteq> ''exit'' \<Longrightarrow> t \<noteq> ''cd'' \<Longrightarrow>
   process_line e s command = execCmd e (args_of (t # ts)) s"
  by (simp add: process_line_def args_of_def arg_at_def)

lemma execCmd_scan:
  "length toks \<le> 10 \<Longrightarrow>
   execCmd e (args_of toks) s0 =
     (case scan e 0 toks (locals0, s0) of (v, s) \<Rightarrow>
        if is_pipe v = 1 then
          pipeCommands e (mask toks @ [None]) (background v) (output_redirection v) (append_f v)
            (input_redirection v) (output_file_pos v) (input_file_pos v) (piped_cmd_pos v) s
        else
          (case sys_fork e s of
             (None, s1) \<Rightarrow> printf (NL # ''Failed forking child..'') s1
           | (Some pid, s1) \<Rightarrow>
               (let s2 = register (single_child e (mask toks @ [None]) v (new_child pid s1)) s1 in
                if background v = 1 then s2\<lparr>ptable := sys_waitpid_nohang pid (ptable s2)\<rparr>
                else (case sys_wait e (ptable s2) of
                        None \<Rightarrow> s2\<lparr>status := Blocked\<rparr>
                      | Some t \<Rightarrow> s2\<lparr>ptable := t\<rparr>))))"
  by (simp add: execCmd_def classify_args split: prod.splits)

subsection \<open>What a child does\<close>

lemma sys_open_None:
  "sys_open e None fl m c = (None, c\<lparr>copens := copens c @ [(None, fl, m)]\<rparr>)"
  by (simp add: sys_open_def)

lemma sys_open_Some:
  "sys_open e (Some p) fl m c =
     (if open_ok e p fl
      then (Some (lowest_free (cfds c)),
            c\<lparr>copens := copens c @ [(Some p, fl, m)],
              cfds := fd_put (cfds c) (lowest_free (cfds c)) (OpenFile p fl m)\<rparr>)
      else (None, c\<lparr>copens := copens c @ [(Some p, fl, m)]\<rparr>))"
  by (simp add: sys_open_def)

lemma outputRedirection_eq:
  "outputRedirection e cmd k a c =
     (case sys_open e (arg_at cmd (k + 1)) (out_flags a) 511 c of
        (None, c1) \<Rightarrow> Inl (c1\<lparr>cmsgs := cmsgs c1 @ [(2, ''Error opening file'')], cfate := Exited 1\<rparr>)
      | (Some fd, c1) \<Rightarrow> Inr (c1\<lparr>cfds := sys_close fd (sys_dup2 fd 1 (cfds c1))\<rparr>))"
  by (simp add: outputRedirection_def out_flags_def child_exit_def child_print_def split: prod.splits option.splits)

lemma inputRedirection_eq:
  "inputRedirection e cmd k c =
     (case sys_open e (arg_at cmd (k + 1)) [O_RDONLY] 0 c of
        (None, c1) \<Rightarrow> Inl (c1\<lparr>cmsgs := cmsgs c1 @ [(2, ''Error opening file'')], cfate := Exited 1\<rparr>)
      | (Some fd, c1) \<Rightarrow> Inr (c1\<lparr>cfds := sys_close fd (sys_dup2 fd 0 (cfds c1))\<rparr>))"
  by (simp add: inputRedirection_def child_exit_def child_print_def split: prod.splits option.splits)

lemma outputRedirection_NULL:
  "arg_at cmd (Suc k) = None \<Longrightarrow>
   outputRedirection e cmd k a c =
     Inl (c\<lparr>copens := copens c @ [(None, out_flags a, 511)],
            cmsgs := cmsgs c @ [(2, ''Error opening file'')], cfate := Exited 1\<rparr>)"
  by (simp add: outputRedirection_eq sys_open_None)

lemma inputRedirection_NULL:
  "arg_at cmd (Suc k) = None \<Longrightarrow>
   inputRedirection e cmd k c =
     Inl (c\<lparr>copens := copens c @ [(None, [O_RDONLY], 0)],
            cmsgs := cmsgs c @ [(2, ''Error opening file'')], cfate := Exited 1\<rparr>)"
  by (simp add: inputRedirection_eq sys_open_None)

lemma outputRedirection_Inl:
  "outputRedirection e cmd k a c = Inl c' \<Longrightarrow>
   cfate c' = Exited 1 \<and> cexec c' = cexec c \<and> cpid c' = cpid c \<and>
   cmsgs c' = cmsgs c @ [(2, ''Error opening file'')] \<and>
   copens c' = copens c @ [(arg_at cmd (Suc k), out_flags a, 511)]"
  by (auto simp: outputRedirection_eq sys_open_def Let_def split: option.splits if_splits)

lemma outputRedirection_Inr:
  "outputRedirection e cmd k a c = Inr c' \<Longrightarrow>
   cfate c' = cfate c \<and> cexec c' = cexec c \<and> cpid c' = cpid c \<and> cmsgs c' = cmsgs c \<and>
   copens c' = copens c @ [(arg_at cmd (Suc k), out_flags a, 511)] \<and>
   (\<exists>p. arg_at cmd (Suc k) = Some p \<and> open_ok e p (out_flags a) \<and>
        cfds c' = sys_close (lowest_free (cfds c))
                    (sys_dup2 (lowest_free (cfds c)) 1
                       (fd_put (cfds c) (lowest_free (cfds c)) (OpenFile p (out_flags a) 511))))"
  by (auto simp: outputRedirection_eq sys_open_def Let_def split: option.splits if_splits)

lemma inputRedirection_Inl:
  "inputRedirection e cmd k c = Inl c' \<Longrightarrow>
   cfate c' = Exited 1 \<and> cexec c' = cexec c \<and> cpid c' = cpid c \<and>
   cmsgs c' = cmsgs c @ [(2, ''Error opening file'')] \<and>
   copens c' = copens c @ [(arg_at cmd (Suc k), [O_RDONLY], 0)]"
  by (auto simp: inputRedirection_eq sys_open_def Let_def split: option.splits if_splits)

lemma inputRedirection_Inr:
  "inputRedirection e cmd k c = Inr c' \<Longrightarrow>
   cfate c' = cfate c \<and> cexec c' = cexec c \<and> cpid c' = cpid c \<and> cmsgs c' = cmsgs c \<and>
   copens c' = copens c @ [(arg_at cmd (Suc k), [O_RDONLY], 0)] \<and>
   (\<exists>p. arg_at cmd (Suc k) = Some p \<and> open_ok e p [O_RDONLY] \<and>
        cfds c' = sys_close (lowest_free (cfds c))
                    (sys_dup2 (lowest_free (cfds c)) 0
                       (fd_put (cfds c) (lowest_free (cfds c)) (OpenFile p [O_RDONLY] 0))))"
  by (auto simp: inputRedirection_eq sys_open_def Let_def split: option.splits if_splits)

lemma sys_execvp_Inl:
  "sys_execvp e parsed k c = Inl c' \<Longrightarrow>
   cexec c' = Some (arg_at parsed k, argv_at parsed k) \<and> cpid c' = cpid c \<and>
   cmsgs c' = cmsgs c \<and> copens c' = copens c \<and> cfds c' = cfds c \<and>
   (arg_at parsed k = None \<and> cfate c' = ExecNull \<or>
    (\<exists>file. arg_at parsed k = Some file \<and> exec_ok e file \<and> cfate c' = Replaced))"
  by (auto simp: sys_execvp_def Let_def split: option.splits if_splits)

lemma sys_execvp_Inr:
  "sys_execvp e parsed k c = Inr c' \<Longrightarrow>
   c' = c\<lparr>cexec := Some (arg_at parsed k, argv_at parsed k)\<rparr> \<and>
   (\<exists>file. arg_at parsed k = Some file \<and> \<not> exec_ok e file)"
  by (auto simp: sys_execvp_def Let_def split: option.splits if_splits)

lemma maybe_output_Inl:
  "(if g then outputRedirection e p k a c0 else Inr c0) = Inl c1 \<Longrightarrow>
   g \<and> outputRedirection e p k a c0 = Inl c1"
  by (simp split: if_splits)

lemma maybe_output_Inr:
  "(if g then outputRedirection e p k a c0 else Inr c0) = Inr c1 \<Longrightarrow>
   cfate c1 = cfate c0 \<and> cexec c1 = cexec c0 \<and> cpid c1 = cpid c0 \<and> cmsgs c1 = cmsgs c0 \<and>
   copens c1 = (if g then copens c0 @ [(arg_at p (Suc k), out_flags a, 511)] else copens c0)"
  by (auto split: if_splits dest: outputRedirection_Inr)

lemma maybe_input_Inl:
  "(if g then inputRedirection e p k c0 else Inr c0) = Inl c1 \<Longrightarrow>
   g \<and> inputRedirection e p k c0 = Inl c1"
  by (simp split: if_splits)

lemma maybe_input_Inr:
  "(if g then inputRedirection e p k c0 else Inr c0) = Inr c1 \<Longrightarrow>
   cfate c1 = cfate c0 \<and> cexec c1 = cexec c0 \<and> cpid c1 = cpid c0 \<and> cmsgs c1 = cmsgs c0 \<and>
   copens c1 = (if g then copens c0 @ [(arg_at p (Suc k), [O_RDONLY], 0)] else copens c0)"
  by (auto split: if_splits dest: inputRedirection_Inr)

lemma single_child_cases:
  obtains
    (out_fail) c1 where
      "output_redirection v = 1 \<or> append_f v = 1"
      "outputRedirection e p (output_file_pos v) (append_f v) c0 = Inl c1"
      "single_child e p v c0 = c1"
  | (in_fail) c1 c2 where
      "(if output_redirection v = 1 \<or> append_f v = 1
        then outputRedirection e p (output_file_pos v) (append_f v) c0 else Inr c0) = Inr c1"
      "input_redirection v = 1"
      "inputRedirection e p (input_file_pos v) c1 = Inl c2"
      "single_child e p v c0 = c2"
  | (exec_done) c1 c2 c3 where
      "(if output_redirection v = 1 \<or> append_f v = 1
        then outputRedirection e p (output_file_pos v) (append_f v) c0 else Inr c0) = Inr c1"
      "(if input_redirection v = 1
        then inputRedirection e p (input_file_pos v) c1 else Inr c1) = Inr c2"
      "sys_execvp e p 0 c2 = Inl c3"
      "single_child e p v c0 = c3"
  | (exec_failed) c1 c2 c3 where
      "(if output_redirection v = 1 \<or> append_f v = 1
        then outputRedirection e p (output_file_pos v) (append_f v) c0 else Inr c0) = Inr c1"
      "(if input_redirection v = 1
        then inputRedirection e p (input_file_pos v) c1 else Inr c1) = Inr c2"
      "sys_execvp e p 0 c2 = Inr c3"
      "single_child e p v c0 =
         (child_print 1 (NL # ''Could not execute command..'' @ [NL]) c3)\<lparr>cfate := Exited 0\<rparr>"
proof -
  let ?r1 = "if output_redirection v = 1 \<or> append_f v = 1
        then outputRedirection e p (output_file_pos v) (append_f v) c0 else Inr c0"
  show ?thesis
  proof (cases ?r1)
    case (Inl c1)
    with maybe_output_Inl [OF Inl] show ?thesis
      by (intro out_fail [of c1]) (simp_all add: single_child_def)
  next
    case r1: (Inr c1)
    let ?r2 = "if input_redirection v = 1
        then inputRedirection e p (input_file_pos v) c1 else Inr c1"
    show ?thesis
    proof (cases ?r2)
      case (Inl c2)
      with maybe_input_Inl [OF Inl] r1 show ?thesis
        by (intro in_fail [of c1 c2]) (simp_all add: single_child_def)
    next
      case r2: (Inr c2)
      show ?thesis
      proof (cases "sys_execvp e p 0 c2")
        case (Inl c3)
        with r1 r2 show ?thesis
          by (intro exec_done [of c1 c2 c3]) (simp_all add: single_child_def)
      next
        case (Inr c3)
        with r1 r2 show ?thesis
          by (intro exec_failed [of c1 c2 c3]) (simp_all add: single_child_def)
      qed
    qed
  qed
qed

lemma single_child_cpid: "cpid (single_child e p v c0) = cpid c0"
proof (cases rule: single_child_cases [of v e p c0])
  case (out_fail c1)
  then show ?thesis by (auto dest: outputRedirection_Inl)
next
  case (in_fail c1 c2)
  then show ?thesis by (auto dest!: maybe_output_Inr inputRedirection_Inl)
next
  case (exec_done c1 c2 c3)
  then show ?thesis by (auto dest!: maybe_output_Inr maybe_input_Inr sys_execvp_Inl)
next
  case (exec_failed c1 c2 c3)
  then show ?thesis
    by (auto dest!: maybe_output_Inr maybe_input_Inr sys_execvp_Inr simp: child_print_def)
qed

lemma single_child_cexec:
  assumes "cexec c0 = None"
  shows "cexec (single_child e p v c0) = None \<or>
         cexec (single_child e p v c0) = Some (arg_at p 0, argv_at p 0)"
proof (cases rule: single_child_cases [of v e p c0])
  case (out_fail c1)
  with assms show ?thesis by (auto dest: outputRedirection_Inl)
next
  case (in_fail c1 c2)
  with assms show ?thesis by (auto dest!: maybe_output_Inr inputRedirection_Inl)
next
  case (exec_done c1 c2 c3)
  then show ?thesis by (auto dest!: sys_execvp_Inl)
next
  case (exec_failed c1 c2 c3)
  then show ?thesis by (auto dest!: sys_execvp_Inr simp: child_print_def)
qed

lemma single_child_exec_fails:
  assumes "cexec c0 = None" and "cexec (single_child e p v c0) \<noteq> None"
    and "arg_at p 0 = Some prog" and "\<not> exec_ok e prog"
  shows "cfate (single_child e p v c0) = Exited 0 \<and>
         cmsgs (single_child e p v c0) =
           cmsgs c0 @ [(1, NL # ''Could not execute command..'' @ [NL])]"
proof (cases rule: single_child_cases [of v e p c0])
  case (out_fail c1)
  with assms show ?thesis by (auto dest: outputRedirection_Inl)
next
  case (in_fail c1 c2)
  with assms show ?thesis by (auto dest!: maybe_output_Inr inputRedirection_Inl)
next
  case (exec_done c1 c2 c3)
  with assms show ?thesis by (auto dest!: sys_execvp_Inl)
next
  case (exec_failed c1 c2 c3)
  with assms show ?thesis
    by (auto dest!: maybe_output_Inr maybe_input_Inr sys_execvp_Inr simp: child_print_def)
qed

lemma execCmd_single:
  assumes "length toks \<le> 10" and "''|'' \<notin> set toks"
  shows "execCmd e (args_of toks) s =
     (case sys_fork e s of
        (None, s1) \<Rightarrow> printf (NL # ''Failed forking child..'') s1
      | (Some pid, s1) \<Rightarrow>
          (let s2 = register (single_child e (mask toks @ [None])
                                (fst (scan e 0 toks (locals0, s))) (new_child pid s1)) s1 in
           if ''&'' \<in> set toks then s2\<lparr>ptable := sys_waitpid_nohang pid (ptable s2)\<rparr>
           else (case sys_wait e (ptable s2) of
                   None \<Rightarrow> s2\<lparr>status := Blocked\<rparr>
                 | Some t \<Rightarrow> s2\<lparr>ptable := t\<rparr>)))"
proof -
  obtain v s1 where m: "scan e 0 toks (locals0, s) = (v, s1)"
    by (cases "scan e 0 toks (locals0, s)")
  from assms(2) have s1: "s1 = s" using scan_shell_keep [of toks e 0 locals0 s] m by simp
  from assms(2) have p: "is_pipe v = 0"
    using scan_is_pipe [of e 0 toks locals0 s] m by (simp add: locals0_def)
  have b: "background v = (if ''&'' \<in> set toks then 1 else 0)"
    using scan_background [of e 0 toks locals0 s] m by (simp add: locals0_def)
  show ?thesis
    by (simp add: execCmd_scan [OF assms(1)] m s1 p b sys_fork_def)
qed

lemma execCmd_single_children:
  assumes "length toks \<le> 10" and "''|'' \<notin> set toks"
  shows "children (execCmd e (args_of toks) s) =
     (if fork_ok e (nforks s)
      then children s @ [single_child e (mask toks @ [None]) (fst (scan e 0 toks (locals0, s)))
                           (new_child (Suc (nforks s)) (s\<lparr>nforks := Suc (nforks s)\<rparr>))]
      else children s)"
  by (simp add: execCmd_single [OF assms] sys_fork_def register_def printf_def Let_def
      split: option.splits)

lemma execCmd_single_out:
  assumes "length toks \<le> 10" and "''|'' \<notin> set toks"
  shows "out (execCmd e (args_of toks) s) =
     (if fork_ok e (nforks s) then out s else out s @ [(1, NL # ''Failed forking child..'')])"
  by (simp add: execCmd_single [OF assms] sys_fork_def register_def printf_def Let_def
      split: option.splits)

lemma execCmd_single_frame:
  assumes "length toks \<le> 10" and "''|'' \<notin> set toks"
  shows "fds (execCmd e (args_of toks) s) = fds s \<and> cwd (execCmd e (args_of toks) s) = cwd s \<and>
         npipes (execCmd e (args_of toks) s) = npipes s"
  by (simp add: execCmd_single [OF assms] sys_fork_def register_def printf_def Let_def
      split: option.splits)

subsection \<open>The children of a pipeline\<close>

lemma new_child_simps:
  "cpid (new_child pid s) = pid" "cfds (new_child pid s) = fds s" "copens (new_child pid s) = []"
  "cmsgs (new_child pid s) = []" "cexec (new_child pid s) = None" "cfate (new_child pid s) = Running"
  by (simp_all add: new_child_def)

lemma new_child_cong: "fds s = fds s' \<Longrightarrow> new_child pid s = new_child pid s'"
  by (simp add: new_child_def)

lemma first_child_cases:
  obtains
    (in_fail) c1 where
      "ir = 1"
      "inputRedirection e p ifp
         (c0\<lparr>cfds := sys_close p1 (sys_dup2 p1 1 (sys_close p0 (cfds c0)))\<rparr>) = Inl c1"
      "first_child e p ir ifp p0 p1 c0 = c1"
  | (exec_done) c2 c3 where
      "(if ir = 1
        then inputRedirection e p ifp
               (c0\<lparr>cfds := sys_close p1 (sys_dup2 p1 1 (sys_close p0 (cfds c0)))\<rparr>)
        else Inr (c0\<lparr>cfds := sys_close p1 (sys_dup2 p1 1 (sys_close p0 (cfds c0)))\<rparr>)) = Inr c2"
      "sys_execvp e p 0 c2 = Inl c3"
      "first_child e p ir ifp p0 p1 c0 = c3"
  | (exec_failed) c2 c3 where
      "(if ir = 1
        then inputRedirection e p ifp
               (c0\<lparr>cfds := sys_close p1 (sys_dup2 p1 1 (sys_close p0 (cfds c0)))\<rparr>)
        else Inr (c0\<lparr>cfds := sys_close p1 (sys_dup2 p1 1 (sys_close p0 (cfds c0)))\<rparr>)) = Inr c2"
      "sys_execvp e p 0 c2 = Inr c3"
      "first_child e p ir ifp p0 p1 c0 =
         (child_print 2 ''First command execution failed'' c3)\<lparr>cfate := Exited 1\<rparr>"
proof -
  let ?c1 = "c0\<lparr>cfds := sys_close p1 (sys_dup2 p1 1 (sys_close p0 (cfds c0)))\<rparr>"
  let ?r = "if ir = 1 then inputRedirection e p ifp ?c1 else Inr ?c1"
  show ?thesis
  proof (cases ?r)
    case (Inl c1)
    have "first_child e p ir ifp p0 p1 c0 = c1"
      unfolding first_child_def Let_def Inl by simp
    with maybe_input_Inl [OF Inl] show ?thesis
      by (intro in_fail [of c1]) simp_all
  next
    case r: (Inr c2)
    show ?thesis
    proof (cases "sys_execvp e p 0 c2")
      case (Inl c3)
      have "first_child e p ir ifp p0 p1 c0 = c3"
        unfolding first_child_def Let_def r by (simp add: Inl)
      with r Inl show ?thesis by (rule exec_done)
    next
      case (Inr c3)
      have "first_child e p ir ifp p0 p1 c0 =
              (child_print 2 ''First command execution failed'' c3)\<lparr>cfate := Exited 1\<rparr>"
        unfolding first_child_def Let_def r by (simp add: Inr)
      with r Inr show ?thesis by (rule exec_failed)
    qed
  qed
qed

lemma second_child_cases:
  obtains
    (out_fail) c1 where
      "orr = 1 \<or> ap = 1"
      "outputRedirection e p ofp ap
         (c0\<lparr>cfds := sys_close p0 (sys_dup2 p0 0 (sys_close p1 (cfds c0)))\<rparr>) = Inl c1"
      "second_child e p orr ap ofp pcp p0 p1 c0 = c1"
  | (exec_done) c2 c3 where
      "(if orr = 1 \<or> ap = 1
        then outputRedirection e p ofp ap
               (c0\<lparr>cfds := sys_close p0 (sys_dup2 p0 0 (sys_close p1 (cfds c0)))\<rparr>)
        else Inr (c0\<lparr>cfds := sys_close p0 (sys_dup2 p0 0 (sys_close p1 (cfds c0)))\<rparr>)) = Inr c2"
      "sys_execvp e p pcp c2 = Inl c3"
      "second_child e p orr ap ofp pcp p0 p1 c0 = c3"
  | (exec_failed) c2 c3 where
      "(if orr = 1 \<or> ap = 1
        then outputRedirection e p ofp ap
               (c0\<lparr>cfds := sys_close p0 (sys_dup2 p0 0 (sys_close p1 (cfds c0)))\<rparr>)
        else Inr (c0\<lparr>cfds := sys_close p0 (sys_dup2 p0 0 (sys_close p1 (cfds c0)))\<rparr>)) = Inr c2"
      "sys_execvp e p pcp c2 = Inr c3"
      "second_child e p orr ap ofp pcp p0 p1 c0 =
         (child_print 2 ''Second command execution failed'' c3)\<lparr>cfate := Exited 1\<rparr>"
proof -
  let ?c1 = "c0\<lparr>cfds := sys_close p0 (sys_dup2 p0 0 (sys_close p1 (cfds c0)))\<rparr>"
  let ?r = "if orr = 1 \<or> ap = 1
            then outputRedirection e p ofp ap ?c1 else Inr ?c1"
  show ?thesis
  proof (cases ?r)
    case (Inl c1)
    with maybe_output_Inl [OF Inl] show ?thesis
      by (intro out_fail [of c1]) (simp_all add: second_child_def Let_def split del: if_split)
  next
    case r: (Inr c2)
    show ?thesis
    proof (cases "sys_execvp e p pcp c2")
      case (Inl c3)
      with r show ?thesis
        by (intro exec_done [of c2 c3]) (simp_all add: second_child_def Let_def split del: if_split)
    next
      case (Inr c3)
      with r show ?thesis
        by (intro exec_failed [of c2 c3]) (simp_all add: second_child_def Let_def split del: if_split)
    qed
  qed
qed

lemma first_child_cexec:
  assumes "cexec c0 = None"
  shows "cexec (first_child e p ir ifp p0 p1 c0) = None \<or>
         cexec (first_child e p ir ifp p0 p1 c0) = Some (arg_at p 0, argv_at p 0)"
proof (cases rule: first_child_cases [where ir = ir and e = e and p = p and ifp = ifp and ?c0.0 = c0 and ?p0.0 = p0 and ?p1.0 = p1])
  case (in_fail c1)
  with assms show ?thesis by (auto dest!: inputRedirection_Inl)
next
  case (exec_done c2 c3)
  then show ?thesis by (auto dest!: sys_execvp_Inl)
next
  case (exec_failed c2 c3)
  then show ?thesis by (auto dest!: sys_execvp_Inr simp: child_print_def)
qed

lemma second_child_cexec:
  assumes "cexec c0 = None"
  shows "cexec (second_child e p orr ap ofp pcp p0 p1 c0) = None \<or>
         cexec (second_child e p orr ap ofp pcp p0 p1 c0) = Some (arg_at p pcp, argv_at p pcp)"
proof (cases rule: second_child_cases [where orr = orr and ap = ap and e = e and p = p and ofp = ofp and pcp = pcp and ?c0.0 = c0 and ?p0.0 = p0 and ?p1.0 = p1])
  case (out_fail c1)
  with assms show ?thesis by (auto dest!: outputRedirection_Inl)
next
  case (exec_done c2 c3)
  then show ?thesis by (auto dest!: sys_execvp_Inl)
next
  case (exec_failed c2 c3)
  then show ?thesis by (auto dest!: sys_execvp_Inr simp: child_print_def)
qed

lemma pipeCommands_children:
  "children (pipeCommands e p bg orr ap ir ofp ifp pcp s) =
     children s @
     (case fst (sys_pipe e s) of
        None \<Rightarrow> []
      | Some (p0, p1) \<Rightarrow>
          if fork_ok e (nforks s) then
            first_child e p ir ifp p0 p1 (new_child (Suc (nforks s)) (snd (sys_pipe e s))) #
            (if fork_ok e (Suc (nforks s))
             then [second_child e p orr ap ofp pcp p0 p1
                     (new_child (Suc (Suc (nforks s))) (snd (sys_pipe e s)))]
             else [])
          else [])"
proof (cases "sys_pipe e s")
  case (Pair r s1)
  have fr: "children s1 = children s" "nforks s1 = nforks s"
    using sys_pipe_frame [of e s] Pair by simp_all
  show ?thesis
  proof (cases r)
    case None
    with Pair fr show ?thesis by (simp add: pipeCommands_def perror_def)
  next
    case (Some pp)
    obtain p0 p1 where pp: "pp = (p0, p1)" by (cases pp)
    have nc: "new_child pid (x\<lparr>nforks := n\<rparr>) = new_child pid x"
             "new_child pid (register c x) = new_child pid x" for pid x n c
      by (simp_all add: new_child_def register_def)
    show ?thesis
      using Pair Some pp fr
      by (simp add: pipeCommands_def sys_fork_def perror_def register_def Let_def nc
          new_child_def split: option.splits)
  qed
qed

lemma execCmd_pipe:
  assumes "length toks \<le> 10" and "''|'' \<in> set toks"
  shows "execCmd e (args_of toks) s =
     pipeCommands e (mask toks @ [None])
       (background (fst (scan e 0 toks (locals0, s))))
       (output_redirection (fst (scan e 0 toks (locals0, s))))
       (append_f (fst (scan e 0 toks (locals0, s))))
       (input_redirection (fst (scan e 0 toks (locals0, s))))
       (output_file_pos (fst (scan e 0 toks (locals0, s))))
       (input_file_pos (fst (scan e 0 toks (locals0, s))))
       (piped_cmd_pos (fst (scan e 0 toks (locals0, s))))
       (snd (scan e 0 toks (locals0, s)))"
proof -
  obtain v s1 where m: "scan e 0 toks (locals0, s) = (v, s1)"
    by (cases "scan e 0 toks (locals0, s)")
  from assms(2) have p: "is_pipe v = 1"
    using scan_is_pipe [of e 0 toks locals0 s] m by simp
  show ?thesis
    by (simp add: execCmd_scan [OF assms(1)] m p)
qed

lemmas child_eval = single_child_def first_child_def second_child_def outputRedirection_eq
  inputRedirection_eq sys_open_def sys_execvp_def child_print_def new_child_def arg_at_def
  argv_at_def mask_def is_operator_def out_flags_def Let_def locals0_def scan_cases

lemmas tokenize_eval = tokenize_def chomp_def strtok_def NL_def

text \<open>
  C3. When \<^verbatim>\<open>execvp\<close> fails in the child of a single command, the child prints
  ``Could not execute command..'' and then calls \<^verbatim>\<open>exit(0)\<close>: whenever such a child
  reaches \<^verbatim>\<open>execvp\<close>, its exit status is 0, the status of success. (The children of
  \<^verbatim>\<open>pipeCommands\<close> call \<^verbatim>\<open>exit(1)\<close> at the same place.) The parent's output and
  descriptors are as before.
\<close>

theorem C3_failed_exec_exits_with_0:
  assumes "tokenize command = t # ts" and "\<not> is_operator t" and "t \<noteq> ''exit''" and "t \<noteq> ''cd''"
    and "''|'' \<notin> set ts" and "fork_ok e (nforks s)" and "\<not> exec_ok e t"
  shows "\<exists>c. children (process_line e s command) = children s @ [c] \<and>
             out (process_line e s command) = out s \<and>
             fds (process_line e s command) = fds s \<and>
             (cexec c \<noteq> None \<longrightarrow>
                cfate c = Exited 0 \<and>
                cmsgs c = [(1, NL # ''Could not execute command..'' @ [NL])])"
proof -
  let ?toks = "t # ts"
  let ?start = "new_child (Suc (nforks s)) (s\<lparr>nforks := Suc (nforks s)\<rparr>)"
  let ?kid = "single_child e (mask ?toks @ [None]) (fst (scan e 0 ?toks (locals0, s))) ?start"
  have len: "length ?toks \<le> 10" using tokenize_length [of command] assms(1) by simp
  have nobar: "''|'' \<notin> set ?toks" using assms(2,5) by (auto simp: is_operator_def)
  have pl: "process_line e s command = execCmd e (args_of ?toks) s"
    using assms(1,3,4) by (rule process_line_exec)
  have a0: "arg_at (mask ?toks @ [None]) 0 = Some t"
    using assms(2) by (simp add: arg_at_mask)
  have "cexec ?kid \<noteq> None \<longrightarrow>
          cfate ?kid = Exited 0 \<and> cmsgs ?kid = [(1, NL # ''Could not execute command..'' @ [NL])]"
    using single_child_exec_fails [where ?c0.0 = ?start and e = e and p = "mask ?toks @ [None]"
        and v = "fst (scan e 0 ?toks (locals0, s))" and prog = t, OF _ _ a0 assms(7)]
    by (simp add: new_child_simps)
  then show ?thesis
    using assms(6)
    by (simp add: pl execCmd_single_children [OF len nobar] execCmd_single_out [OF len nobar]
        execCmd_single_frame [OF len nobar])
qed

theorem C3_failed_exec_exits_with_0_witness:
  "tokenize ''nosuchcmd'' = [''nosuchcmd''] \<and> \<not> exec_ok env_noexec ''nosuchcmd'' \<and>
   map cfate (children (process_line env_noexec shell0 ''nosuchcmd'')) = [Exited 0] \<and>
   map cexec (children (process_line env_noexec shell0 ''nosuchcmd'')) =
     [Some (Some ''nosuchcmd'', [''nosuchcmd''])]"
proof -
  have t: "tokenize ''nosuchcmd'' = [''nosuchcmd'']" by (simp add: tokenize_eval)
  have x: "\<not> exec_ok env_noexec ''nosuchcmd''" by (simp add: env_noexec_def)
  have f: "fork_ok env_noexec (nforks shell0)" by (simp add: env_noexec_def env0_def)
  have pl: "process_line env_noexec shell0 ''nosuchcmd'' =
              execCmd env_noexec (args_of [''nosuchcmd'']) shell0"
    using t by (intro process_line_exec) simp_all
  have ex: "map cexec (children (process_line env_noexec shell0 ''nosuchcmd'')) =
     [Some (Some ''nosuchcmd'', [''nosuchcmd''])]"
    unfolding pl
    by (simp add: execCmd_single_children child_eval env_noexec_def env0_def shell0_def)
  from C3_failed_exec_exits_with_0 [OF t _ _ _ _ f x]
  obtain c where "children (process_line env_noexec shell0 ''nosuchcmd'') = children shell0 @ [c]"
    "cexec c \<noteq> None \<longrightarrow> cfate c = Exited 0"
    by (auto simp: is_operator_def)
  with ex have "map cfate (children (process_line env_noexec shell0 ''nosuchcmd'')) = [Exited 0]"
    by (simp add: shell0_def)
  with t x ex show ?thesis by simp
qed

text \<open>
  C5 (as amended). \<^verbatim>\<open>cd path\<close> calls \<^verbatim>\<open>chdir(path)\<close>, and \<^verbatim>\<open>cd ~\<close> calls \<^verbatim>\<open>chdir\<close> on the
  value of \<^verbatim>\<open>HOME\<close>. No child is created. When \<^verbatim>\<open>chdir(path)\<close> fails for a path other
  than \<^verbatim>\<open>~\<close>, the error is reported and the interpreter goes on; when \<^verbatim>\<open>cd ~\<close> fails
  (\<^verbatim>\<open>HOME\<close> unset, or \<^verbatim>\<open>chdir\<close> failing on it), the error is reported and the interpreter
  exits with status 1.
\<close>

theorem C5_cd:
  assumes "tokenize command = ''cd'' # p # rest" and "s' = process_line e s command"
  shows "children s' = children s \<and> fds s' = fds s \<and>
    (p \<noteq> ''~'' \<longrightarrow>
       (case chdir_ok e (cwd s) p of
          Some d \<Rightarrow> cwd s' = d \<and> out s' = out s \<and> status s' = status s
        | None \<Rightarrow> cwd s' = cwd s \<and> status s' = status s \<and>
            out s' = out s @ [(2, ''Error: Failed to change directory.'' @ [NL])])) \<and>
    (p = ''~'' \<longrightarrow>
       (case (case HOME e of None \<Rightarrow> None | Some home \<Rightarrow> chdir_ok e (cwd s) home) of
          Some d \<Rightarrow> cwd s' = d \<and> status s' = status s \<and>
            out s' = out s @ [(1, ''Changed directory to home.'' @ [NL])]
        | None \<Rightarrow> cwd s' = cwd s \<and> status s' = Terminated 1 \<and>
            out s' = out s @ [(2, ''Error: Failed to change directory to home.'' @ [NL])]))"
  using assms
  by (simp add: process_line_def args_of_def arg_at_def printf_def perror_def
      split: option.splits)

theorem C5_cd_witness:
  "tokenize ''cd /tmp'' = [''cd'', ''/tmp''] \<and>
   cwd (process_line env0 shell0 ''cd /tmp'') = ''/tmp'' \<and>
   status (process_line env0 shell0 ''cd /tmp'') = Reading \<and>
   tokenize ''cd ~'' = [''cd'', ''~''] \<and>
   cwd (process_line env0 shell0 ''cd ~'') = ''/home/user'' \<and>
   status (process_line env_nochdir shell0 ''cd /tmp'') = Reading \<and>
   out (process_line env_nochdir shell0 ''cd /tmp'') =
     [(2, ''Error: Failed to change directory.'' @ [NL])]"
proof -
  have t1: "tokenize ''cd /tmp'' = [''cd'', ''/tmp'']" by (simp add: tokenize_eval)
  have t2: "tokenize ''cd ~'' = [''cd'', ''~'']" by (simp add: tokenize_eval)
  from C5_cd [OF t1 refl, of env0 shell0] C5_cd [OF t2 refl, of env0 shell0]
    C5_cd [OF t1 refl, of env_nochdir shell0] t1 t2
  show ?thesis
    by (simp add: env0_def env_nochdir_def shell0_def)
qed

text \<open>C5 as stated fails on \<^verbatim>\<open>cd ~\<close> when \<^verbatim>\<open>chdir\<close> fails: the interpreter exits.\<close>

theorem C5_counterexample:
  "status (process_line env_nochdir shell0 ''cd ~'') = Terminated 1 \<and>
   status shell0 = Reading"
  by (simp add: process_line_def tokenize_eval args_of_def arg_at_def perror_def
      env_nochdir_def env0_def shell0_def)

subsection \<open>A redirection without its path, a pipe without its command\<close>

lemma single_child_missing_path:
  assumes "(output_redirection v = 1 \<or> append_f v = 1) \<and> arg_at p (Suc (output_file_pos v)) = None \<or>
           input_redirection v = 1 \<and> arg_at p (Suc (input_file_pos v)) = None"
    and "cexec c0 = None" and "cmsgs c0 = []"
  shows "cfate (single_child e p v c0) = Exited 1 \<and> cexec (single_child e p v c0) = None \<and>
         cmsgs (single_child e p v c0) = [(2, ''Error opening file'')]"
proof (cases rule: single_child_cases [where v = v and e = e and p = p and ?c0.0 = c0])
  case (out_fail c1)
  with assms(2,3) show ?thesis by (auto dest: outputRedirection_Inl)
next
  case (in_fail c1 c2)
  with assms(2,3) show ?thesis by (auto dest!: maybe_output_Inr inputRedirection_Inl)
next
  case (exec_done c1 c2 c3)
  from exec_done(1) assms(1) have "input_redirection v = 1 \<and> arg_at p (Suc (input_file_pos v)) = None"
    by (auto simp: outputRedirection_NULL split: if_splits)
  with exec_done(2) show ?thesis by (simp add: inputRedirection_NULL)
next
  case (exec_failed c1 c2 c3)
  from exec_failed(1) assms(1) have "input_redirection v = 1 \<and> arg_at p (Suc (input_file_pos v)) = None"
    by (auto simp: outputRedirection_NULL split: if_splits)
  with exec_failed(2) show ?thesis by (simp add: inputRedirection_NULL)
qed

lemma first_child_missing_path:
  assumes "ir = 1" and "arg_at p (Suc ifp) = None" and "cexec c0 = None" and "cmsgs c0 = []"
  shows "cfate (first_child e p ir ifp p0 p1 c0) = Exited 1 \<and>
         cexec (first_child e p ir ifp p0 p1 c0) = None \<and>
         cmsgs (first_child e p ir ifp p0 p1 c0) = [(2, ''Error opening file'')]"
  using assms by (simp add: first_child_def Let_def inputRedirection_NULL)

lemma second_child_missing_path:
  assumes "orr = 1 \<or> ap = 1" and "arg_at p (Suc ofp) = None" and "cexec c0 = None" and "cmsgs c0 = []"
  shows "cfate (second_child e p orr ap ofp pcp p0 p1 c0) = Exited 1 \<and>
         cexec (second_child e p orr ap ofp pcp p0 p1 c0) = None \<and>
         cmsgs (second_child e p orr ap ofp pcp p0 p1 c0) = [(2, ''Error opening file'')]"
  using assms by (auto simp: second_child_def Let_def outputRedirection_NULL)

lemma second_child_null_exec:
  assumes "arg_at p pcp = None" and "cexec c0 = None"
  shows "cfate (second_child e p orr ap ofp pcp p0 p1 c0) \<noteq> Replaced \<and>
         (cexec (second_child e p orr ap ofp pcp p0 p1 c0) = None \<or>
          cexec (second_child e p orr ap ofp pcp p0 p1 c0) = Some (None, argv_at p pcp))"
proof (cases rule: second_child_cases [where orr = orr and ap = ap and e = e and p = p
      and ofp = ofp and pcp = pcp and ?c0.0 = c0 and ?p0.0 = p0 and ?p1.0 = p1])
  case (out_fail c1)
  with assms show ?thesis by (auto dest!: outputRedirection_Inl)
next
  case (exec_done c2 c3)
  with assms show ?thesis by (auto dest!: sys_execvp_Inl)
next
  case (exec_failed c2 c3)
  with assms show ?thesis by (auto dest!: sys_execvp_Inr)
qed

lemma pipeCommands_out:
  "out (pipeCommands e p bg orr ap ir ofp ifp pcp s) =
     out s @
     (case fst (sys_pipe e s) of
        None \<Rightarrow> [(2, ''Pipe creation failed'')]
      | Some pp \<Rightarrow>
          if fork_ok e (nforks s) then
            (if fork_ok e (Suc (nforks s)) then [] else [(2, ''Second fork failed'')])
          else [(2, ''Fork failed'')])"
proof (cases "sys_pipe e s")
  case (Pair r s1)
  have fr: "out s1 = out s" "nforks s1 = nforks s"
    using sys_pipe_frame [of e s] Pair by simp_all
  show ?thesis
  proof (cases r)
    case None
    with Pair fr show ?thesis by (simp add: pipeCommands_def perror_def)
  next
    case (Some pp)
    obtain p0 p1 where pp: "pp = (p0, p1)" by (cases pp)
    show ?thesis
      using Pair Some pp fr
      by (simp add: pipeCommands_def sys_fork_def perror_def register_def Let_def
          split: option.splits)
  qed
qed

lemma sys_pipe_ok: "pipe_ok e (npipes s) \<Longrightarrow> \<exists>p0 p1. fst (sys_pipe e s) = Some (p0, p1)"
  by (simp add: sys_pipe_def Let_def)

text \<open>
  C1 (as amended). \<^verbatim>\<open>execCmd\<close> has no notion of a malformed line. When the last token is
  an operator that needs an argument, the line is executed all the same: the parent
  reports nothing and forks (here under the proviso that \<^verbatim>\<open>fork\<close> and \<^verbatim>\<open>pipe\<close> succeed)
  one child, or two when the line holds a \<^verbatim>\<open>|\<close>. What fails is the child that needs the
  missing argument: behind a trailing \<^verbatim>\<open>>\<close>, \<^verbatim>\<open>>>\<close> or \<^verbatim>\<open><\<close> it reports
  ``Error opening file'' and exits with status 1 before any \<^verbatim>\<open>execvp\<close>; behind a trailing
  \<^verbatim>\<open>|\<close> the second child never runs a program: either it calls \<^verbatim>\<open>execvp\<close> with a \<^verbatim>\<open>NULL\<close>
  file name and an empty vector, or it never calls \<^verbatim>\<open>execvp\<close>.
\<close>

theorem C1_trailing_operator_not_rejected:
  assumes "tokenize command = pre @ [op]"
    and "hd (pre @ [op]) \<noteq> ''exit''" and "hd (pre @ [op]) \<noteq> ''cd''"
    and "op = ''>'' \<or> op = ''>>'' \<or> op = ''<'' \<or> op = ''|''"
    and "\<forall>n. fork_ok e n" and "\<forall>n. pipe_ok e n"
    and "s' = process_line e s command"
  shows "out s' = out s \<and>
     (op \<noteq> ''|'' \<and> ''|'' \<notin> set pre \<longrightarrow>
        (\<exists>c. children s' = children s @ [c] \<and> cfate c = Exited 1 \<and> cexec c = None \<and>
             cmsgs c = [(2, ''Error opening file'')])) \<and>
     (op \<noteq> ''|'' \<and> ''|'' \<in> set pre \<longrightarrow>
        (\<exists>c1 c2. children s' = children s @ [c1, c2] \<and>
             cfate (if op = ''<'' then c1 else c2) = Exited 1 \<and>
             cexec (if op = ''<'' then c1 else c2) = None \<and>
             cmsgs (if op = ''<'' then c1 else c2) = [(2, ''Error opening file'')])) \<and>
     (op = ''|'' \<longrightarrow>
        (\<exists>c1 c2. children s' = children s @ [c1, c2] \<and> cfate c2 \<noteq> Replaced \<and>
             (cexec c2 = None \<or> cexec c2 = Some (None, []))))"
proof -
  let ?toks = "pre @ [op]"
  let ?p = "mask ?toks @ [None]"
  let ?v = "fst (scan e 0 ?toks (locals0, s))"
  let ?s1 = "snd (scan e 0 ?toks (locals0, s))"
  have len: "length ?toks \<le> 10" using tokenize_length [of command] assms(1) by simp
  obtain t ts where tt: "?toks = t # ts" by (cases ?toks) simp_all
  have pl: "s' = execCmd e (args_of ?toks) s"
    using process_line_exec [of command t ts e s] assms(1,2,3,7) tt by simp
  have last_arg: "arg_at ?p (Suc (length pre)) = None" by (simp add: arg_at_mask)
  have v_out: "op = ''>'' \<or> op = ''>>'' \<Longrightarrow>
      (output_redirection ?v = 1 \<or> append_f ?v = 1) \<and> output_file_pos ?v = length pre"
    using scan_output_file_pos [of op "[]" e 0 pre "(locals0, s)"]
      scan_output_redirection [of e 0 ?toks locals0 s] scan_append_f [of e 0 ?toks locals0 s]
    by auto
  have v_in: "op = ''<'' \<Longrightarrow> input_redirection ?v = 1 \<and> input_file_pos ?v = length pre"
    using scan_input_file_pos [of "[]" e 0 pre "(locals0, s)"]
      scan_input_redirection [of e 0 ?toks locals0 s]
    by auto
  have v_bar: "op = ''|'' \<Longrightarrow> piped_cmd_pos ?v = Suc (length pre)"
    using scan_piped_cmd_pos [of "[]" e 0 pre "(locals0, s)"] by auto
  have fr: "children ?s1 = children s" "out ?s1 = out s" "nforks ?s1 = nforks s"
    using scan_shell_frame [of e 0 ?toks locals0 s] by simp_all
  show ?thesis
  proof (cases "''|'' \<in> set ?toks")
    case False
    let ?start = "new_child (Suc (nforks s)) (s\<lparr>nforks := Suc (nforks s)\<rparr>)"
    have ch: "children s' = children s @ [single_child e ?p ?v ?start]"
      using assms(5) by (simp add: pl execCmd_single_children [OF len False])
    have ou: "out s' = out s"
      using assms(5) by (simp add: pl execCmd_single_out [OF len False])
    from False assms(4) have "op = ''>'' \<or> op = ''>>'' \<or> op = ''<''" by auto
    with v_out v_in last_arg
    have "(output_redirection ?v = 1 \<or> append_f ?v = 1) \<and> arg_at ?p (Suc (output_file_pos ?v)) = None \<or>
          input_redirection ?v = 1 \<and> arg_at ?p (Suc (input_file_pos ?v)) = None"
      by auto
    from single_child_missing_path [OF this, of ?start e] ch ou False
    show ?thesis by (auto simp: new_child_simps)
  next
    case True
    obtain p0 p1 where pp: "fst (sys_pipe e ?s1) = Some (p0, p1)"
      using sys_pipe_ok [of e ?s1] assms(6) by auto
    let ?n1 = "new_child (Suc (nforks s)) (snd (sys_pipe e ?s1))"
    let ?n2 = "new_child (Suc (Suc (nforks s))) (snd (sys_pipe e ?s1))"
    let ?k1 = "first_child e ?p (input_redirection ?v) (input_file_pos ?v) p0 p1 ?n1"
    let ?k2 = "second_child e ?p (output_redirection ?v) (append_f ?v) (output_file_pos ?v)
                 (piped_cmd_pos ?v) p0 p1 ?n2"
    have ch: "children s' = children s @ [?k1, ?k2]"
      using assms(5) by (simp add: pl execCmd_pipe [OF len True] pipeCommands_children pp fr)
    have ou: "out s' = out s"
      using assms(5) by (simp add: pl execCmd_pipe [OF len True] pipeCommands_out pp fr)
    have a: "op = ''<'' \<Longrightarrow>
        cfate ?k1 = Exited 1 \<and> cexec ?k1 = None \<and> cmsgs ?k1 = [(2, ''Error opening file'')]"
      using v_in last_arg by (intro first_child_missing_path) (simp_all add: new_child_simps)
    have b: "op = ''>'' \<or> op = ''>>'' \<Longrightarrow>
        cfate ?k2 = Exited 1 \<and> cexec ?k2 = None \<and> cmsgs ?k2 = [(2, ''Error opening file'')]"
      using v_out last_arg by (intro second_child_missing_path) (simp_all add: new_child_simps)
    have c: "op = ''|'' \<Longrightarrow>
        cfate ?k2 \<noteq> Replaced \<and> (cexec ?k2 = None \<or> cexec ?k2 = Some (None, []))"
      using second_child_null_exec [of ?p "piped_cmd_pos ?v" ?n2 e "output_redirection ?v"
          "append_f ?v" "output_file_pos ?v" p0 p1] v_bar last_arg
      by (simp add: new_child_simps argv_at_mask)
    from ch ou a b c assms(4) True show ?thesis by auto
  qed
qed

theorem C1_trailing_operator_not_rejected_witness:
  "tokenize ''ls >'' = [''ls''] @ [''>''] \<and>
   map cfate (children (process_line env0 shell0 ''ls >'')) = [Exited 1] \<and>
   map cexec (children (process_line env0 shell0 ''ls >'')) = [None] \<and>
   out (process_line env0 shell0 ''ls >'') = [] \<and>
   tokenize ''ls |'' = [''ls''] @ [''|''] \<and>
   length (children (process_line env0 shell0 ''ls |'')) = 2"
proof -
  have t1: "tokenize ''ls >'' = [''ls''] @ [''>'']" by (simp add: tokenize_eval)
  have t2: "tokenize ''ls |'' = [''ls''] @ [''|'']" by (simp add: tokenize_eval)
  have f: "\<forall>n. fork_ok env0 n" and p: "\<forall>n. pipe_ok env0 n" by (simp_all add: env0_def)
  have "out (process_line env0 shell0 ''ls >'') = out shell0 \<and>
        (\<exists>c. children (process_line env0 shell0 ''ls >'') = children shell0 @ [c] \<and>
             cfate c = Exited 1 \<and> cexec c = None \<and> cmsgs c = [(2, ''Error opening file'')])"
    using C1_trailing_operator_not_rejected [OF t1 _ _ _ f p refl, of shell0] by simp
  moreover have "\<exists>c1 c2. children (process_line env0 shell0 ''ls |'') = children shell0 @ [c1, c2]"
    using C1_trailing_operator_not_rejected [OF t2 _ _ _ f p refl, of shell0] by auto
  ultimately show ?thesis using t1 t2 by (auto simp: shell0_def)
qed

text \<open>
  C1 as stated fails on \<^verbatim>\<open>ls >\<close>: a child process is created, and the interpreter itself
  reports nothing (the only message is the child's own, after the failed \<^verbatim>\<open>open\<close>).
\<close>

theorem C1_counterexample:
  "length (children (process_line env0 shell0 ''ls >'')) = 1 \<and>
   out (process_line env0 shell0 ''ls >'') = [] \<and>
   nforks (process_line env0 shell0 ''ls >'') = 1"
proof -
  have t: "tokenize ''ls >'' = [''ls'', ''>'']" by (simp add: tokenize_eval)
  have pl: "process_line env0 shell0 ''ls >'' = execCmd env0 (args_of [''ls'', ''>'']) shell0"
    using t by (intro process_line_exec) simp_all
  show ?thesis
    unfolding pl
    by (simp add: execCmd_single sys_fork_def register_def sys_wait_def Let_def env0_def shell0_def
        split: option.splits list.splits)
qed

section \<open>Descriptor tables\<close>

lemma fd_get_put: "fd_get (fd_put t k r) j = (if j = k then Some r else fd_get t j)"
  by (auto simp: fd_get_def fd_put_def nth_append nth_list_update)

lemma fd_get_close: "fd_get (sys_close k t) j = (if j = k then None else fd_get t j)"
  by (auto simp: fd_get_def sys_close_def)

lemma fd_get_dup2:
  "fd_get (sys_dup2 a b t) j =
     (case fd_get t a of
        None \<Rightarrow> fd_get t j
      | Some r \<Rightarrow> if j = b \<and> a \<noteq> b then Some r else fd_get t j)"
  by (simp add: sys_dup2_def fd_get_put split: option.splits)

lemma lowest_free_free: "fd_get t (lowest_free t) = None"
  by (induction t rule: lowest_free.induct) (auto simp: fd_get_def split: if_splits)

lemma lowest_free_least: "fd_get t j = None \<Longrightarrow> lowest_free t \<le> j"
proof (induction t arbitrary: j rule: lowest_free.induct)
  case 1
  then show ?case by simp
next
  case (2 t)
  then show ?case by simp
next
  case (3 r t)
  show ?case
  proof (cases j)
    case 0
    with 3(2) show ?thesis by (simp add: fd_get_def)
  next
    case (Suc i)
    with 3(2) have "fd_get t i = None" by (simp add: fd_get_def split: if_splits)
    with 3(1) Suc show ?thesis by simp
  qed
qed

lemma lowest_free_neq: "fd_get t j \<noteq> None \<Longrightarrow> lowest_free t \<noteq> j"
  using lowest_free_free [of t] by auto

lemma open_count_put:
  "open_count (fd_put t k r) = (if fd_get t k = None then Suc (open_count t) else open_count t)"
proof -
  have a: "open_count (xs[k := Some r]) =
             (if xs ! k = None then Suc (open_count xs) else open_count xs)"
    if "k < length xs" for xs :: fdtable
    using that
  proof (induction xs arbitrary: k)
    case Nil
    then show ?case by simp
  next
    case (Cons x xs)
    then show ?case by (cases k) (auto simp: open_count_def)
  qed
  have b: "open_count (t @ replicate n None) = open_count t" for n
    by (simp add: open_count_def)
  have c: "(t @ replicate (Suc k - length t) None) ! k = None \<longleftrightarrow> fd_get t k = None"
    by (auto simp: fd_get_def nth_append)
  show ?thesis
    unfolding fd_put_def
    by (subst a) (auto simp: b c)
qed

lemma open_count_close:
  "open_count (sys_close k t) = (if fd_get t k = None then open_count t else open_count t - 1)"
proof -
  have a: "open_count (xs[k := None]) + (if xs ! k = None then 0 else 1) = open_count xs"
    if "k < length xs" for xs :: fdtable
    using that
  proof (induction xs arbitrary: k)
    case Nil
    then show ?case by simp
  next
    case (Cons x xs)
    show ?case
    proof (cases k)
      case 0
      then show ?thesis by (auto simp: open_count_def)
    next
      case (Suc i)
      with Cons.prems have "i < length xs" by simp
      from Cons.IH [OF this] Suc show ?thesis by (auto simp: open_count_def)
    qed
  qed
  show ?thesis
  proof (cases "k < length t")
    case True
    from a [OF True] show ?thesis by (auto simp: sys_close_def fd_get_def True)
  next
    case False
    then show ?thesis by (simp add: sys_close_def fd_get_def)
  qed
qed

subsection \<open>\<^verbatim>\<open>pipe\<close>\<close>

lemma sys_pipe_Some:
  assumes "pipe_ok e (npipes s)"
  shows "sys_pipe e s =
     (Some (lowest_free (fds s),
            lowest_free (fd_put (fds s) (lowest_free (fds s)) (PipeRead (npipes s)))),
      s\<lparr>fds := fd_put (fd_put (fds s) (lowest_free (fds s)) (PipeRead (npipes s)))
                  (lowest_free (fd_put (fds s) (lowest_free (fds s)) (PipeRead (npipes s))))
                  (PipeWrite (npipes s)),
        npipes := Suc (npipes s)\<rparr>)"
  using assms by (simp add: sys_pipe_def Let_def)

lemma sys_pipe_ends:
  assumes "fst (sys_pipe e s) = Some (p0, p1)"
  shows "p0 \<noteq> p1 \<and> fd_get (fds s) p0 = None \<and> fd_get (fds s) p1 = None \<and>
         (\<forall>j. fd_get (fds (snd (sys_pipe e s))) j =
                (if j = p0 then Some (PipeRead (npipes s))
                 else if j = p1 then Some (PipeWrite (npipes s)) else fd_get (fds s) j))"
proof -
  from assms have ok: "pipe_ok e (npipes s)"
    by (auto simp: sys_pipe_def split: if_splits)
  let ?t1 = "fd_put (fds s) (lowest_free (fds s)) (PipeRead (npipes s))"
  from assms have p: "p0 = lowest_free (fds s)" "p1 = lowest_free ?t1"
    by (auto simp: sys_pipe_Some [OF ok])
  have n: "p0 \<noteq> p1"
    unfolding p using lowest_free_neq [of ?t1 "lowest_free (fds s)"] by (simp add: fd_get_put)
  have f0: "fd_get (fds s) p0 = None" unfolding p by (rule lowest_free_free)
  have "fd_get ?t1 p1 = None" unfolding p by (rule lowest_free_free)
  with n have f1: "fd_get (fds s) p1 = None" unfolding p by (simp add: fd_get_put split: if_splits)
  show ?thesis
    using n f0 f1 by (auto simp: sys_pipe_Some [OF ok] fd_get_put p)
qed

lemma sys_pipe_count:
  assumes "fst (sys_pipe e s) = Some (p0, p1)"
  shows "open_count (fds (snd (sys_pipe e s))) = open_count (fds s) + 2"
proof -
  from assms have ok: "pipe_ok e (npipes s)"
    by (auto simp: sys_pipe_def split: if_splits)
  show ?thesis
    by (simp add: sys_pipe_Some [OF ok] open_count_put lowest_free_free)
qed

lemma sys_pipe_close_count:
  assumes "fst (sys_pipe e s) = Some (p0, p1)"
  shows "open_count (sys_close p1 (sys_close p0 (fds (snd (sys_pipe e s))))) = open_count (fds s)"
  using sys_pipe_ends [OF assms] sys_pipe_count [OF assms]
  by (simp add: open_count_close fd_get_close)

lemma pipeCommands_fds:
  assumes "fst (sys_pipe e s) = Some (p0, p1)" and "fork_ok e (nforks s)"
    and "fork_ok e (Suc (nforks s))"
  shows "fds (pipeCommands e p bg orr ap ir ofp ifp pcp s) =
           sys_close p1 (sys_close p0 (fds (snd (sys_pipe e s))))"
proof (cases "sys_pipe e s")
  case (Pair r s1)
  have fr: "nforks s1 = nforks s"
    using sys_pipe_frame [of e s] Pair by simp
  show ?thesis
    using Pair assms fr
    by (simp add: pipeCommands_def sys_fork_def register_def Let_def split: option.splits)
qed

text \<open>
  C2. The loop of \<^verbatim>\<open>execCmd\<close> calls \<^verbatim>\<open>pipe(pipe_fd)\<close> when it meets the \<^verbatim>\<open>|\<close>, into a local
  array that nothing reads or closes; \<^verbatim>\<open>pipeCommands\<close> then creates the pipe it uses and
  closes both of its ends in the parent. So after a line with one \<^verbatim>\<open>|\<close> (all calls
  succeeding) the interpreter holds two open descriptors more than before: both ends of
  the first pipe.
\<close>

theorem C2_pipeline_leaks_two_descriptors:
  assumes "tokenize command = pre @ ''|'' # post" and "''|'' \<notin> set pre" and "''|'' \<notin> set post"
    and "hd (pre @ [''|'']) \<noteq> ''exit''" and "hd (pre @ [''|'']) \<noteq> ''cd''"
    and "\<forall>n. fork_ok e n" and "\<forall>n. pipe_ok e n"
  shows "open_count (fds (process_line e s command)) = open_count (fds s) + 2"
proof -
  let ?toks = "pre @ ''|'' # post"
  let ?s1 = "snd (scan e 0 ?toks (locals0, s))"
  have len: "length ?toks \<le> 10" using tokenize_length [of command] assms(1) by simp
  obtain t ts where tt: "?toks = t # ts" by (cases ?toks) simp_all
  then have "t = hd (pre @ [''|''])" by (cases pre) simp_all
  with assms(4,5) have "t \<noteq> ''exit''" "t \<noteq> ''cd''" by simp_all
  then have pl: "process_line e s command = execCmd e (args_of ?toks) s"
    using process_line_exec [of command t ts e s] assms(1) tt by simp
  have s1: "?s1 = snd (sys_pipe e s)"
    using assms(2,3) by (rule scan_shell_one_bar)
  obtain q0 q1 where q: "fst (sys_pipe e s) = Some (q0, q1)"
    using sys_pipe_ok [of e s] assms(7) by auto
  obtain p0 p1 where p: "fst (sys_pipe e ?s1) = Some (p0, p1)"
    using sys_pipe_ok [of e ?s1] assms(7) by auto
  have "fds (process_line e s command) = sys_close p1 (sys_close p0 (fds (snd (sys_pipe e ?s1))))"
    unfolding pl execCmd_pipe [OF len, simplified]
    using assms(6) by (intro pipeCommands_fds p) simp_all
  then have "open_count (fds (process_line e s command)) = open_count (fds ?s1)"
    by (simp add: sys_pipe_close_count [OF p])
  also have "\<dots> = open_count (fds s) + 2"
    unfolding s1 by (rule sys_pipe_count [OF q])
  finally show ?thesis .
qed

theorem C2_pipeline_leaks_two_descriptors_witness:
  "tokenize ''ls | wc'' = [''ls''] @ ''|'' # [''wc''] \<and>
   open_count (fds shell0) = 3 \<and>
   open_count (fds (process_line env0 shell0 ''ls | wc'')) = 5"
proof -
  have t: "tokenize ''ls | wc'' = [''ls''] @ ''|'' # [''wc'']" by (simp add: tokenize_eval)
  have f: "\<forall>n. fork_ok env0 n" and p: "\<forall>n. pipe_ok env0 n" by (simp_all add: env0_def)
  have c: "open_count (fds shell0) = 3" by (simp add: shell0_def open_count_def)
  from C2_pipeline_leaks_two_descriptors [OF t _ _ _ _ f p, of shell0] c t
  show ?thesis by simp
qed

text \<open>
  C4. In the foreground \<^verbatim>\<open>execCmd\<close> calls \<^verbatim>\<open>wait(NULL)\<close>, which returns as soon as any
  child has terminated. When an earlier background child is a zombie, \<^verbatim>\<open>wait\<close> reaps
  that one and returns at once: the interpreter is back at its prompt while the child it
  has just created is still alive and has not been waited for.
\<close>

theorem C4_foreground_wait_takes_any_child:
  assumes "tokenize command = t # ts" and "t \<noteq> ''exit''" and "t \<noteq> ''cd''"
    and "''|'' \<notin> set (t # ts)" and "''&'' \<notin> set (t # ts)"
    and "fork_ok e (nforks s)"
    and "filter (\<lambda>q. snd q = Zombie) (ptable s) = (z, Zombie) # zs"
    and "z \<noteq> Suc (nforks s)"
  shows "ptable (process_line e s command) = reap z (ptable s) @ [(Suc (nforks s), Live)] \<and>
         status (process_line e s command) = status s \<and>
         map cpid (children (process_line e s command)) = map cpid (children s) @ [Suc (nforks s)]"
proof -
  let ?toks = "t # ts"
  have len: "length ?toks \<le> 10" using tokenize_length [of command] assms(1) by simp
  have pl: "process_line e s command = execCmd e (args_of ?toks) s"
    using assms(1,2,3) by (rule process_line_exec)
  have w: "sys_wait e (ptable s @ [(Suc (nforks s), Live)]) =
             Some (reap z (ptable s) @ [(Suc (nforks s), Live)])"
    using assms(7,8) by (simp add: sys_wait_def reap_def)
  show ?thesis
    unfolding pl execCmd_single [OF len assms(4)]
    using assms(5,6) w
    by (simp add: sys_fork_def register_def Let_def single_child_cpid new_child_simps)
qed

theorem C4_foreground_wait_takes_any_child_witness:
  "tokenize ''sleep 5'' = [''sleep'', ''5''] \<and>
   ptable (child_exits 1 (process_line env0 shell0 ''true &'')) = [(1, Zombie)] \<and>
   ptable (process_line env0 (child_exits 1 (process_line env0 shell0 ''true &'')) ''sleep 5'') =
     [(2, Live)] \<and>
   status (process_line env0 (child_exits 1 (process_line env0 shell0 ''true &'')) ''sleep 5'') =
     Reading"
proof -
  let ?s = "child_exits 1 (process_line env0 shell0 ''true &'')"
  have t1: "tokenize ''true &'' = [''true'', ''&'']" by (simp add: tokenize_eval)
  have t2: "tokenize ''sleep 5'' = [''sleep'', ''5'']" by (simp add: tokenize_eval)
  have pl: "process_line env0 shell0 ''true &'' = execCmd env0 (args_of [''true'', ''&'']) shell0"
    using t1 by (intro process_line_exec) simp_all
  have s: "ptable ?s = [(1, Zombie)]" "nforks ?s = 1" "status ?s = Reading"
    unfolding pl
    by (simp_all add: execCmd_single sys_fork_def register_def Let_def single_child_cpid
        new_child_simps sys_waitpid_nohang_def child_exits_def env0_def shell0_def)
  have f: "fork_ok env0 (nforks ?s)" unfolding s(2) by (simp add: env0_def)
  have z: "filter (\<lambda>q. snd q = Zombie) (ptable ?s) = (1, Zombie) # []"
    unfolding s(1) by simp
  have "ptable (process_line env0 ?s ''sleep 5'') = reap 1 (ptable ?s) @ [(Suc (nforks ?s), Live)] \<and>
        status (process_line env0 ?s ''sleep 5'') = status ?s"
    using C4_foreground_wait_takes_any_child [OF t2 _ _ _ _ f z] unfolding s(2) by simp
  then show ?thesis
    unfolding s using t2 by (simp add: reap_def)
qed

subsection \<open>The descriptors of a child\<close>

lemma outputRedirection_Inl_cfds:
  "outputRedirection e cmd k a c = Inl c' \<Longrightarrow> cfds c' = cfds c"
  by (auto simp: outputRedirection_eq sys_open_def Let_def split: option.splits if_splits)

lemma inputRedirection_Inl_cfds:
  "inputRedirection e cmd k c = Inl c' \<Longrightarrow> cfds c' = cfds c"
  by (auto simp: inputRedirection_eq sys_open_def Let_def split: option.splits if_splits)

lemma redirect_table:
  "fd_get (sys_close (lowest_free t) (sys_dup2 (lowest_free t) b (fd_put t (lowest_free t) r))) j =
     (if j = b \<and> lowest_free t \<noteq> b then Some r else if j = lowest_free t then None else fd_get t j)"
  using lowest_free_free [of t]
  by (auto simp: fd_get_close fd_get_dup2 fd_get_put)

lemma outputRedirection_Inr_fds:
  assumes "outputRedirection e cmd k a c = Inr c'"
  shows "j \<noteq> 1 \<Longrightarrow> fd_get (cfds c') j = fd_get (cfds c) j"
    and "fd_get (cfds c) 1 \<noteq> None \<Longrightarrow>
         \<exists>p. arg_at cmd (Suc k) = Some p \<and> fd_get (cfds c') 1 = Some (OpenFile p (out_flags a) 511)"
    and "fd_get (cfds c') 1 = None \<or>
         (\<exists>p. fd_get (cfds c') 1 = Some (OpenFile p (out_flags a) 511))"
proof -
  from outputRedirection_Inr [OF assms] obtain p where
    p: "arg_at cmd (Suc k) = Some p"
    and t: "cfds c' = sys_close (lowest_free (cfds c))
                    (sys_dup2 (lowest_free (cfds c)) 1
                       (fd_put (cfds c) (lowest_free (cfds c)) (OpenFile p (out_flags a) 511)))"
    by blast
  show "j \<noteq> 1 \<Longrightarrow> fd_get (cfds c') j = fd_get (cfds c) j"
    using lowest_free_free [of "cfds c"] by (auto simp: t redirect_table)
  show "fd_get (cfds c) 1 \<noteq> None \<Longrightarrow>
         \<exists>p. arg_at cmd (Suc k) = Some p \<and> fd_get (cfds c') 1 = Some (OpenFile p (out_flags a) 511)"
    using lowest_free_neq [of "cfds c" 1] p by (auto simp: t redirect_table)
  show "fd_get (cfds c') 1 = None \<or>
         (\<exists>p. fd_get (cfds c') 1 = Some (OpenFile p (out_flags a) 511))"
    by (auto simp: t redirect_table)
qed

lemma inputRedirection_Inr_fds:
  assumes "inputRedirection e cmd k c = Inr c'"
  shows "j \<noteq> 0 \<Longrightarrow> fd_get (cfds c') j = fd_get (cfds c) j"
    and "fd_get (cfds c') 0 = None \<or>
         (\<exists>p. fd_get (cfds c') 0 = Some (OpenFile p [O_RDONLY] 0))"
proof -
  from inputRedirection_Inr [OF assms] obtain p where
    t: "cfds c' = sys_close (lowest_free (cfds c))
                    (sys_dup2 (lowest_free (cfds c)) 0
                       (fd_put (cfds c) (lowest_free (cfds c)) (OpenFile p [O_RDONLY] 0)))"
    by blast
  show "j \<noteq> 0 \<Longrightarrow> fd_get (cfds c') j = fd_get (cfds c) j"
    using lowest_free_free [of "cfds c"] by (auto simp: t redirect_table)
  show "fd_get (cfds c') 0 = None \<or>
         (\<exists>p. fd_get (cfds c') 0 = Some (OpenFile p [O_RDONLY] 0))"
    by (auto simp: t redirect_table)
qed

lemma maybe_input_Inr_fds:
  assumes "(if g then inputRedirection e p k c0 else Inr c0) = Inr c1"
  shows "j \<noteq> 0 \<Longrightarrow> fd_get (cfds c1) j = fd_get (cfds c0) j"
    and "fd_get (cfds c1) 0 = fd_get (cfds c0) 0 \<or> fd_get (cfds c1) 0 = None \<or>
         (\<exists>q. fd_get (cfds c1) 0 = Some (OpenFile q [O_RDONLY] 0))"
  using assms inputRedirection_Inr_fds [of e p k c0 c1]
  by (auto split: if_splits)

lemma maybe_output_Inr_fds:
  assumes "(if g then outputRedirection e p k a c0 else Inr c0) = Inr c1"
  shows "j \<noteq> 1 \<Longrightarrow> fd_get (cfds c1) j = fd_get (cfds c0) j"
    and "fd_get (cfds c1) 1 = fd_get (cfds c0) 1 \<or> fd_get (cfds c1) 1 = None \<or>
         (\<exists>q. fd_get (cfds c1) 1 = Some (OpenFile q (out_flags a) 511))"
  using assms outputRedirection_Inr_fds [of e p k a c0 c1]
  by (auto split: if_splits)

lemma first_child_fds:
  shows "j \<noteq> 0 \<Longrightarrow>
         fd_get (cfds (first_child e p ir ifp p0 p1 c0)) j =
           fd_get (sys_close p1 (sys_dup2 p1 1 (sys_close p0 (cfds c0)))) j"
    and "fd_get (cfds (first_child e p ir ifp p0 p1 c0)) 0 =
           fd_get (sys_close p1 (sys_dup2 p1 1 (sys_close p0 (cfds c0)))) 0 \<or>
         fd_get (cfds (first_child e p ir ifp p0 p1 c0)) 0 = None \<or>
         (\<exists>q. fd_get (cfds (first_child e p ir ifp p0 p1 c0)) 0 = Some (OpenFile q [O_RDONLY] 0))"
proof -
  let ?w = "c0\<lparr>cfds := sys_close p1 (sys_dup2 p1 1 (sys_close p0 (cfds c0)))\<rparr>"
  have "(j \<noteq> 0 \<longrightarrow> fd_get (cfds (first_child e p ir ifp p0 p1 c0)) j = fd_get (cfds ?w) j) \<and>
        (fd_get (cfds (first_child e p ir ifp p0 p1 c0)) 0 = fd_get (cfds ?w) 0 \<or>
         fd_get (cfds (first_child e p ir ifp p0 p1 c0)) 0 = None \<or>
         (\<exists>q. fd_get (cfds (first_child e p ir ifp p0 p1 c0)) 0 = Some (OpenFile q [O_RDONLY] 0)))"
  proof (cases rule: first_child_cases [where ir = ir and e = e and p = p and ifp = ifp
        and ?c0.0 = c0 and ?p0.0 = p0 and ?p1.0 = p1])
    case (in_fail c1)
    then show ?thesis by (auto dest!: inputRedirection_Inl_cfds)
  next
    case (exec_done c2 c3)
    from sys_execvp_Inl [OF exec_done(2)] have "cfds c3 = cfds c2" by simp
    with maybe_input_Inr_fds [OF exec_done(1)] exec_done(3) show ?thesis by auto
  next
    case (exec_failed c2 c3)
    from sys_execvp_Inr [OF exec_failed(2)] have "cfds c3 = cfds c2" by simp
    with maybe_input_Inr_fds [OF exec_failed(1)] exec_failed(3) show ?thesis
      by (auto simp: child_print_def)
  qed
  then show "j \<noteq> 0 \<Longrightarrow>
         fd_get (cfds (first_child e p ir ifp p0 p1 c0)) j =
           fd_get (sys_close p1 (sys_dup2 p1 1 (sys_close p0 (cfds c0)))) j"
    and "fd_get (cfds (first_child e p ir ifp p0 p1 c0)) 0 =
           fd_get (sys_close p1 (sys_dup2 p1 1 (sys_close p0 (cfds c0)))) 0 \<or>
         fd_get (cfds (first_child e p ir ifp p0 p1 c0)) 0 = None \<or>
         (\<exists>q. fd_get (cfds (first_child e p ir ifp p0 p1 c0)) 0 = Some (OpenFile q [O_RDONLY] 0))"
    by simp_all
qed

lemma second_child_fds:
  shows "j \<noteq> 1 \<Longrightarrow>
         fd_get (cfds (second_child e p orr ap ofp pcp p0 p1 c0)) j =
           fd_get (sys_close p0 (sys_dup2 p0 0 (sys_close p1 (cfds c0)))) j"
    and "fd_get (cfds (second_child e p orr ap ofp pcp p0 p1 c0)) 1 =
           fd_get (sys_close p0 (sys_dup2 p0 0 (sys_close p1 (cfds c0)))) 1 \<or>
         fd_get (cfds (second_child e p orr ap ofp pcp p0 p1 c0)) 1 = None \<or>
         (\<exists>q. fd_get (cfds (second_child e p orr ap ofp pcp p0 p1 c0)) 1 =
                 Some (OpenFile q (out_flags ap) 511))"
proof -
  let ?w = "c0\<lparr>cfds := sys_close p0 (sys_dup2 p0 0 (sys_close p1 (cfds c0)))\<rparr>"
  let ?k = "second_child e p orr ap ofp pcp p0 p1 c0"
  have "(j \<noteq> 1 \<longrightarrow> fd_get (cfds ?k) j = fd_get (cfds ?w) j) \<and>
        (fd_get (cfds ?k) 1 = fd_get (cfds ?w) 1 \<or> fd_get (cfds ?k) 1 = None \<or>
         (\<exists>q. fd_get (cfds ?k) 1 = Some (OpenFile q (out_flags ap) 511)))"
  proof (cases rule: second_child_cases [where orr = orr and ap = ap and e = e and p = p
      and ofp = ofp and pcp = pcp and ?c0.0 = c0 and ?p0.0 = p0 and ?p1.0 = p1])
    case (out_fail c1)
    then show ?thesis by (auto dest!: outputRedirection_Inl_cfds)
  next
    case (exec_done c2 c3)
    from sys_execvp_Inl [OF exec_done(2)] have "cfds c3 = cfds c2" by simp
    with maybe_output_Inr_fds [OF exec_done(1)] exec_done(3) show ?thesis by auto
  next
    case (exec_failed c2 c3)
    from sys_execvp_Inr [OF exec_failed(2)] have "cfds c3 = cfds c2" by simp
    with maybe_output_Inr_fds [OF exec_failed(1)] exec_failed(3) show ?thesis
      by (auto simp: child_print_def)
  qed
  then show "j \<noteq> 1 \<Longrightarrow> fd_get (cfds ?k) j =
           fd_get (sys_close p0 (sys_dup2 p0 0 (sys_close p1 (cfds c0)))) j"
    and "fd_get (cfds ?k) 1 =
           fd_get (sys_close p0 (sys_dup2 p0 0 (sys_close p1 (cfds c0)))) 1 \<or>
         fd_get (cfds ?k) 1 = None \<or>
         (\<exists>q. fd_get (cfds ?k) 1 = Some (OpenFile q (out_flags ap) 511))"
    by simp_all
qed

lemma pipes_below_get:
  assumes "pipes_below n t"
  shows "fd_get t j = Some (PipeRead k) \<Longrightarrow> k < n" and "fd_get t j = Some (PipeWrite k) \<Longrightarrow> k < n"
proof -
  have "fd_get t j = Some r \<Longrightarrow>
          (case r of PipeRead k \<Rightarrow> k < n | PipeWrite k \<Rightarrow> k < n | _ \<Rightarrow> True)" for r
    using assms
    by (auto simp: pipes_below_def fd_get_def list_all_length split: if_splits)
  from this [of "PipeRead k"] this [of "PipeWrite k"]
  show "fd_get t j = Some (PipeRead k) \<Longrightarrow> k < n" and "fd_get t j = Some (PipeWrite k) \<Longrightarrow> k < n"
    by simp_all
qed

lemma takeWhile_stop: "\<not> P y \<Longrightarrow> takeWhile P (xs @ y # ys) = takeWhile P xs"
  by (induction xs) simp_all

text \<open>
  The two pipes of a line with one \<^verbatim>\<open>|\<close>: the one the loop of \<^verbatim>\<open>execCmd\<close> opens, and the
  one \<^verbatim>\<open>pipeCommands\<close> opens and uses, whose ends are \<open>p0\<close> and \<open>p1\<close>.
\<close>

lemma second_pipe:
  assumes "pipe_ok e (npipes s)" and "pipe_ok e (Suc (npipes s))"
    and "fd_get (fds s) 0 \<noteq> None" and "pipes_below (npipes s) (fds s)"
    and "s1 = snd (sys_pipe e s)"
  obtains p0 p1 where
    "fst (sys_pipe e s1) = Some (p0, p1)"
    "p0 \<noteq> p1" "p0 \<noteq> 0" "p1 \<noteq> 0" "p1 \<noteq> 1"
    "\<And>j. fd_get (fds (snd (sys_pipe e s1))) j =
            (if j = p0 then Some (PipeRead (Suc (npipes s)))
             else if j = p1 then Some (PipeWrite (Suc (npipes s))) else fd_get (fds s1) j)"
    "fd_get (fds s1) p0 = None" "fd_get (fds s1) p1 = None"
    "\<And>j. fd_get (fds s1) j \<noteq> Some (PipeRead (Suc (npipes s)))"
    "\<And>j. fd_get (fds s1) j \<noteq> Some (PipeWrite (Suc (npipes s)))"
proof -
  obtain q0 q1 where q: "fst (sys_pipe e s) = Some (q0, q1)"
    using sys_pipe_ok [OF assms(1)] by auto
  have n1: "npipes s1 = Suc (npipes s)"
    using assms(1,5) by (simp add: sys_pipe_Some)
  note e1 = sys_pipe_ends [OF q, folded assms(5)]
  obtain p0 p1 where p: "fst (sys_pipe e s1) = Some (p0, p1)"
    using sys_pipe_ok [of e s1] assms(2) n1 by auto
  note e2 = sys_pipe_ends [OF p, unfolded n1]
  have z1: "fd_get (fds s1) 0 \<noteq> None"
    using e1 assms(3) by (auto split: if_splits)
  have p00: "p0 \<noteq> 0"
  proof
    assume "p0 = 0"
    with e2 z1 show False by simp
  qed
  have p10: "p1 \<noteq> 0"
  proof
    assume "p1 = 0"
    with e2 z1 show False by simp
  qed
  let ?t1 = "fd_put (fds s1) (lowest_free (fds s1)) (PipeRead (npipes s1))"
  have ok1: "pipe_ok e (npipes s1)" using assms(2) n1 by simp
  have pp: "p0 = lowest_free (fds s1)" "p1 = lowest_free ?t1"
    using p by (auto simp: sys_pipe_Some [OF ok1])
  have p11: "p1 \<noteq> 1"
  proof
    assume a: "p1 = 1"
    with e2 have "fd_get (fds s1) 1 = None" by simp
    then have "p0 \<le> 1" unfolding pp by (rule lowest_free_least)
    with p00 have "p0 = 1" by simp
    with a e2 show False by simp
  qed
  have fr: "fd_get (fds s1) j \<noteq> Some (PipeRead (Suc (npipes s))) \<and>
            fd_get (fds s1) j \<noteq> Some (PipeWrite (Suc (npipes s)))" for j
    using e1 pipes_below_get [OF assms(4), of j "Suc (npipes s)"]
    by (auto split: if_splits)
  show ?thesis
    using p e2 p00 p10 p11 fr by (intro that [of p0 p1]) auto
qed

lemma wired_first:
  assumes "p0 \<noteq> p1" and "p1 \<noteq> 1" and "fd_get t p1 = Some w"
  shows "fd_get (sys_close p1 (sys_dup2 p1 1 (sys_close p0 t))) j =
           (if j = p1 then None else if j = 1 then Some w
            else if j = p0 then None else fd_get t j)"
  using assms by (simp add: fd_get_close fd_get_dup2)

lemma wired_second:
  assumes "p0 \<noteq> p1" and "p0 \<noteq> 0" and "fd_get t p0 = Some r"
  shows "fd_get (sys_close p0 (sys_dup2 p0 0 (sys_close p1 t))) j =
           (if j = p0 then None else if j = 0 then Some r
            else if j = p1 then None else fd_get t j)"
  using assms by (simp add: fd_get_close fd_get_dup2)

subsection \<open>The child that redirects its output\<close>

lemma outputRedirection_Inl_why:
  "outputRedirection e cmd k a c = Inl c' \<Longrightarrow>
   arg_at cmd (Suc k) = None \<or> (\<exists>p. arg_at cmd (Suc k) = Some p \<and> \<not> open_ok e p (out_flags a))"
  by (auto simp: outputRedirection_eq sys_open_def Let_def split: option.splits if_splits)

lemma single_child_output:
  assumes "output_redirection v = 1 \<or> append_f v = 1"
    and "arg_at p (Suc (output_file_pos v)) = Some path"
    and "copens c0 = []" and "cexec c0 = None" and "fd_get (cfds c0) 1 \<noteq> None"
  shows "copens (single_child e p v c0) \<noteq> [] \<and>
         hd (copens (single_child e p v c0)) = (Some path, out_flags (append_f v), 511) \<and>
         (\<forall>x\<in>set (copens (single_child e p v c0)).
             fst (snd x) \<noteq> [O_RDONLY] \<longrightarrow> x = (Some path, out_flags (append_f v), 511)) \<and>
         (if open_ok e path (out_flags (append_f v))
          then fd_get (cfds (single_child e p v c0)) 1 =
                 Some (OpenFile path (out_flags (append_f v)) 511)
          else cfate (single_child e p v c0) = Exited 1 \<and> cexec (single_child e p v c0) = None)"
proof (cases rule: single_child_cases [where v = v and e = e and p = p and ?c0.0 = c0])
  case (out_fail c1)
  from outputRedirection_Inl [OF out_fail(2)] outputRedirection_Inl_why [OF out_fail(2)]
  show ?thesis using assms out_fail(3) by auto
next
  case (in_fail c1 c2)
  from in_fail(1) assms(1)
  have o: "outputRedirection e p (output_file_pos v) (append_f v) c0 = Inr c1" by simp
  from outputRedirection_Inr [OF o] outputRedirection_Inr_fds(2) [OF o assms(5)]
    inputRedirection_Inl [OF in_fail(3)] inputRedirection_Inl_cfds [OF in_fail(3)]
  show ?thesis using assms in_fail(4) by auto
next
  case (exec_done c1 c2 c3)
  from exec_done(1) assms(1)
  have o: "outputRedirection e p (output_file_pos v) (append_f v) c0 = Inr c1" by simp
  from outputRedirection_Inr [OF o] outputRedirection_Inr_fds(2) [OF o assms(5)]
    maybe_input_Inr [OF exec_done(2)] maybe_input_Inr_fds(1) [OF exec_done(2), of 1]
    sys_execvp_Inl [OF exec_done(3)]
  show ?thesis using assms exec_done(4) by auto
next
  case (exec_failed c1 c2 c3)
  from exec_failed(1) assms(1)
  have o: "outputRedirection e p (output_file_pos v) (append_f v) c0 = Inr c1" by simp
  from outputRedirection_Inr [OF o] outputRedirection_Inr_fds(2) [OF o assms(5)]
    maybe_input_Inr [OF exec_failed(2)] maybe_input_Inr_fds(1) [OF exec_failed(2), of 1]
    sys_execvp_Inr [OF exec_failed(3)]
  show ?thesis using assms exec_failed(4) by (auto simp: child_print_def)
qed

lemma second_child_output:
  assumes "orr = 1 \<or> ap = 1"
    and "arg_at p (Suc ofp) = Some path"
    and "copens c0 = []" and "cexec c0 = None"
    and "fd_get (sys_close p0 (sys_dup2 p0 0 (sys_close p1 (cfds c0)))) 1 \<noteq> None"
  shows "copens (second_child e p orr ap ofp pcp p0 p1 c0) = [(Some path, out_flags ap, 511)] \<and>
         (if open_ok e path (out_flags ap)
          then fd_get (cfds (second_child e p orr ap ofp pcp p0 p1 c0)) 1 =
                 Some (OpenFile path (out_flags ap) 511)
          else cfate (second_child e p orr ap ofp pcp p0 p1 c0) = Exited 1 \<and>
               cexec (second_child e p orr ap ofp pcp p0 p1 c0) = None)"
proof (cases rule: second_child_cases [where orr = orr and ap = ap and e = e and p = p
      and ofp = ofp and pcp = pcp and ?c0.0 = c0 and ?p0.0 = p0 and ?p1.0 = p1])
  case (out_fail c1)
  from outputRedirection_Inl [OF out_fail(2)] outputRedirection_Inl_why [OF out_fail(2)]
  show ?thesis using assms out_fail(3) by auto
next
  case (exec_done c2 c3)
  let ?w = "c0\<lparr>cfds := sys_close p0 (sys_dup2 p0 0 (sys_close p1 (cfds c0)))\<rparr>"
  from exec_done(1) assms(1)
  have o: "outputRedirection e p ofp ap ?w = Inr c2" by simp
  have w1: "fd_get (cfds ?w) 1 \<noteq> None" using assms(5) by simp
  from outputRedirection_Inr [OF o] outputRedirection_Inr_fds(2) [OF o w1]
    sys_execvp_Inl [OF exec_done(2)]
  show ?thesis using assms exec_done(3) by auto
next
  case (exec_failed c2 c3)
  let ?w = "c0\<lparr>cfds := sys_close p0 (sys_dup2 p0 0 (sys_close p1 (cfds c0)))\<rparr>"
  from exec_failed(1) assms(1)
  have o: "outputRedirection e p ofp ap ?w = Inr c2" by simp
  have w1: "fd_get (cfds ?w) 1 \<noteq> None" using assms(5) by simp
  from outputRedirection_Inr [OF o] outputRedirection_Inr_fds(2) [OF o w1]
    sys_execvp_Inr [OF exec_failed(2)]
  show ?thesis using assms exec_failed(3) by (auto simp: child_print_def)
qed

lemma first_child_copens:
  assumes "copens c0 = []"
  shows "\<forall>x\<in>set (copens (first_child e p ir ifp p0 p1 c0)). fst (snd x) = [O_RDONLY]"
proof (cases rule: first_child_cases [where ir = ir and e = e and p = p and ifp = ifp
      and ?c0.0 = c0 and ?p0.0 = p0 and ?p1.0 = p1])
  case (in_fail c1)
  with assms show ?thesis by (auto dest!: inputRedirection_Inl)
next
  case (exec_done c2 c3)
  from maybe_input_Inr [OF exec_done(1)] sys_execvp_Inl [OF exec_done(2)]
  show ?thesis using assms exec_done(3) by (auto split: if_splits)
next
  case (exec_failed c2 c3)
  from maybe_input_Inr [OF exec_failed(1)] sys_execvp_Inr [OF exec_failed(2)]
  show ?thesis using assms exec_failed(3) by (auto simp: child_print_def split: if_splits)
qed

lemma sys_pipe_keeps_open:
  "fd_get (fds s) j \<noteq> None \<Longrightarrow> fd_get (fds (snd (sys_pipe e s))) j = fd_get (fds s) j"
proof (cases "pipe_ok e (npipes s)")
  case True
  assume a: "fd_get (fds s) j \<noteq> None"
  obtain q0 q1 where q: "fst (sys_pipe e s) = Some (q0, q1)"
    using sys_pipe_ok [OF True] by auto
  from sys_pipe_ends [OF q] a show ?thesis by auto
next
  case False
  then show ?thesis by (simp add: sys_pipe_def)
qed

lemma scan_keeps_open:
  "fd_get (fds s) j \<noteq> None \<Longrightarrow> fd_get (fds (snd (scan e i ts (v, s)))) j = fd_get (fds s) j"
  by (induction ts arbitrary: i v s) (simp_all add: scan_cases sys_pipe_keeps_open)

lemma takeWhile_short:
  assumes "k \<le> n" and "n < length xs" and "\<not> P (xs ! n)"
  shows "k + length (takeWhile P (drop k xs)) \<le> n"
proof -
  have "drop (n - k) (drop k xs) = xs ! n # drop (Suc n) xs"
    using assms(1,2) by (simp add: Cons_nth_drop_Suc)
  then have d: "drop k xs = take (n - k) (drop k xs) @ xs ! n # drop (Suc n) xs"
    by (metis append_take_drop_id)
  have "takeWhile P (drop k xs) = takeWhile P (take (n - k) (drop k xs))"
    using takeWhile_stop [of P "xs ! n" "take (n - k) (drop k xs)" "drop (Suc n) xs"] assms(3) d
    by simp
  moreover have "length (takeWhile P (take (n - k) (drop k xs))) \<le> length (take (n - k) (drop k xs))"
    by (rule length_takeWhile_le)
  ultimately have "length (takeWhile P (drop k xs)) \<le> n - k" by simp
  with assms(1) show ?thesis by simp
qed

lemma argv_block:
  "argv_at (mask toks @ [None]) k = take (length (argv_at (mask toks @ [None]) k)) (drop k toks)"
  unfolding argv_at_mask by (rule takeWhile_eq_take)

lemma argv_short:
  assumes "k \<le> n" and "n < length toks" and "is_operator (toks ! n)"
  shows "k + length (argv_at (mask toks @ [None]) k) \<le> n"
  unfolding argv_at_mask using assms by (intro takeWhile_short) simp_all

text \<open>
  C7. Take a line that reaches \<^verbatim>\<open>execCmd\<close> (its first token is neither \<^verbatim>\<open>cd\<close> nor
  \<^verbatim>\<open>exit\<close>) and whose tokens hold exactly one \<^verbatim>\<open>>\<close> or \<^verbatim>\<open>>>\<close>, followed by a path token,
  an ordinary word \<open>path\<close>; let \<^verbatim>\<open>fork\<close> and \<^verbatim>\<open>pipe\<close> succeed and the interpreter's standard
  output be open. Then the last child created (the only one, or the second stage of a
  pipeline) first of all opens \<open>path\<close> write-only, creating it with mode \<^verbatim>\<open>0777\<close>,
  appending for \<^verbatim>\<open>>>\<close> and truncating for \<^verbatim>\<open>>\<close>; if the \<^verbatim>\<open>open\<close> succeeds its standard
  output is that file, otherwise it exits with status 1 before any \<^verbatim>\<open>execvp\<close>. No child
  opens anything else for writing. The argument vector of every child that reaches
  \<^verbatim>\<open>execvp\<close> is a block of consecutive tokens that ends before the operator or starts
  behind the path: the path token is not in it.
\<close>

theorem C7_output_redirection:
  assumes "tokenize command = pre @ op # path # post"
    and "op = ''>'' \<or> op = ''>>''"
    and "''>'' \<notin> set pre" and "''>>'' \<notin> set pre" and "''>'' \<notin> set post" and "''>>'' \<notin> set post"
    and "\<not> is_operator path"
    and "hd (pre @ [op]) \<noteq> ''exit''" and "hd (pre @ [op]) \<noteq> ''cd''"
    and "\<forall>n. fork_ok e n" and "\<forall>n. pipe_ok e n"
    and "fd_get (fds s) 1 \<noteq> None"
    and "s' = process_line e s command"
    and "fl = [O_WRONLY, O_CREAT, if op = ''>>'' then O_APPEND else O_TRUNC]"
  shows "\<exists>new. children s' = children s @ new \<and> new \<noteq> [] \<and>
     copens (last new) \<noteq> [] \<and> hd (copens (last new)) = (Some path, fl, 511) \<and>
     (if open_ok e path fl then fd_get (cfds (last new)) 1 = Some (OpenFile path fl 511)
      else cfate (last new) = Exited 1 \<and> cexec (last new) = None) \<and>
     (\<forall>c\<in>set new. \<forall>x\<in>set (copens c). fst (snd x) \<noteq> [O_RDONLY] \<longrightarrow> x = (Some path, fl, 511)) \<and>
     (\<forall>c\<in>set new. \<forall>prog argv. cexec c = Some (prog, argv) \<longrightarrow>
        (\<exists>k. argv = take (length argv) (drop k (tokenize command)) \<and>
             (k + length argv \<le> length pre \<or> Suc (length pre) < k)))"
proof -
  let ?toks = "pre @ op # path # post"
  let ?p = "mask ?toks @ [None]"
  let ?v = "fst (scan e 0 ?toks (locals0, s))"
  let ?s1 = "snd (scan e 0 ?toks (locals0, s))"
  let ?P = "\<lambda>t. \<not> is_operator t"
  have len: "length ?toks \<le> 10" using tokenize_length [of command] assms(1) by simp
  obtain t ts where tt: "?toks = t # ts" by (cases ?toks) simp_all
  then have "t = hd (pre @ [op])" by (cases pre) simp_all
  with assms(8,9) have "t \<noteq> ''exit''" "t \<noteq> ''cd''" by simp_all
  then have pl: "s' = execCmd e (args_of ?toks) s"
    using process_line_exec [of command t ts e s] assms(1,13) tt by simp
  have isop: "is_operator op" using assms(2) by (auto simp: is_operator_def)
  have pne: "path \<noteq> ''>'' \<and> path \<noteq> ''>>'' \<and> path \<noteq> ''|''"
    using assms(7) by (auto simp: is_operator_def)
  have app: "append_f ?v = (if op = ''>>'' then 1 else 0)"
    using scan_append_f [of e 0 ?toks locals0 s] assms(2,4,6) pne
    by (auto simp: locals0_def)
  have flag: "output_redirection ?v = 1 \<or> append_f ?v = 1"
    using scan_output_redirection [of e 0 ?toks locals0 s] scan_append_f [of e 0 ?toks locals0 s]
      assms(2) by auto
  have fl: "out_flags (append_f ?v) = fl"
    by (simp add: app assms(14) out_flags_def)
  have ofp: "output_file_pos ?v = length pre"
    using scan_output_file_pos [OF assms(2), of "path # post" e 0 pre "(locals0, s)"] assms(5,6) pne
    by auto
  have arg: "arg_at ?p (Suc (output_file_pos ?v)) = Some path"
    using assms(7) by (simp add: ofp arg_at_mask nth_append)
  have argv0: "\<exists>k. argv_at ?p 0 = take (length (argv_at ?p 0)) (drop k (tokenize command)) \<and>
             (k + length (argv_at ?p 0) \<le> length pre \<or> Suc (length pre) < k)"
  proof (intro exI [of _ 0] conjI disjI1)
    show "argv_at ?p 0 = take (length (argv_at ?p 0)) (drop 0 (tokenize command))"
      unfolding assms(1) by (rule argv_block)
    show "0 + length (argv_at ?p 0) \<le> length pre"
      using isop by (intro argv_short) (simp_all add: nth_append)
  qed
  show ?thesis
  proof (cases "''|'' \<in> set ?toks")
    case False
    let ?start = "new_child (Suc (nforks s)) (s\<lparr>nforks := Suc (nforks s)\<rparr>)"
    let ?kid = "single_child e ?p ?v ?start"
    have ch: "children s' = children s @ [?kid]"
      using assms(10) by (simp add: pl execCmd_single_children [OF len False])
    have o: "copens ?kid \<noteq> [] \<and> hd (copens ?kid) = (Some path, fl, 511) \<and>
         (\<forall>x\<in>set (copens ?kid). fst (snd x) \<noteq> [O_RDONLY] \<longrightarrow> x = (Some path, fl, 511)) \<and>
         (if open_ok e path fl then fd_get (cfds ?kid) 1 = Some (OpenFile path fl 511)
          else cfate ?kid = Exited 1 \<and> cexec ?kid = None)"
    proof -
      have h: "copens ?start = []" "cexec ?start = None" "fd_get (cfds ?start) 1 \<noteq> None"
        using assms(12) by (simp_all add: new_child_simps)
      from single_child_output [OF flag arg h, of e, unfolded fl] show ?thesis .
    qed
    have x: "cexec ?kid = None \<or> cexec ?kid = Some (arg_at ?p 0, argv_at ?p 0)"
      by (rule single_child_cexec) (simp add: new_child_simps)
    have a: "\<forall>prog argv. cexec ?kid = Some (prog, argv) \<longrightarrow>
        (\<exists>k. argv = take (length argv) (drop k (tokenize command)) \<and>
             (k + length argv \<le> length pre \<or> Suc (length pre) < k))"
      using x argv0 by auto
    from ch o a show ?thesis by (intro exI [of _ "[?kid]"]) (simp del: One_nat_def)
  next
    case True
    from split_list_last [OF True]
    obtain pre' post' where sp: "?toks = pre' @ ''|'' # post'" "''|'' \<notin> set post'"
      by blast
    have pos: "piped_cmd_pos ?v = Suc (length pre')"
      using scan_piped_cmd_pos [OF sp(2), of e 0 pre' "(locals0, s)"] sp(1) by simp
    have fr: "children ?s1 = children s" "nforks ?s1 = nforks s"
      using scan_shell_frame [of e 0 ?toks locals0 s] by simp_all
    have o1: "fd_get (fds ?s1) 1 \<noteq> None"
      using scan_keeps_open [OF assms(12), of e 0 ?toks locals0] assms(12) by simp
    obtain p0 p1 where pp: "fst (sys_pipe e ?s1) = Some (p0, p1)"
      using sys_pipe_ok [of e ?s1] assms(11) by auto
    note ends = sys_pipe_ends [OF pp]
    let ?s2 = "snd (sys_pipe e ?s1)"
    let ?n1 = "new_child (Suc (nforks s)) ?s2"
    let ?n2 = "new_child (Suc (Suc (nforks s))) ?s2"
    let ?k1 = "first_child e ?p (input_redirection ?v) (input_file_pos ?v) p0 p1 ?n1"
    let ?k2 = "second_child e ?p (output_redirection ?v) (append_f ?v) (output_file_pos ?v)
                 (Suc (length pre')) p0 p1 ?n2"
    have ch: "children s' = children s @ [?k1, ?k2]"
      using assms(10)
      by (simp add: pl execCmd_pipe [OF len True] pipeCommands_children pp fr pos)
    have n1: "p0 \<noteq> 1" "p1 \<noteq> 1" using ends o1 by auto
    have w: "fd_get (sys_close p0 (sys_dup2 p0 0 (sys_close p1 (cfds ?n2)))) 1 \<noteq> None"
      using ends o1 n1
      by (simp add: new_child_simps fd_get_close fd_get_dup2 split: option.splits)
    have o: "copens ?k2 = [(Some path, fl, 511)] \<and>
         (if open_ok e path fl then fd_get (cfds ?k2) 1 = Some (OpenFile path fl 511)
          else cfate ?k2 = Exited 1 \<and> cexec ?k2 = None)"
    proof -
      have h: "copens ?n2 = []" "cexec ?n2 = None" by (simp_all add: new_child_simps)
      from second_child_output [OF flag arg h w, of e "Suc (length pre')", unfolded fl]
      show ?thesis .
    qed
    have c1: "\<forall>x\<in>set (copens ?k1). fst (snd x) = [O_RDONLY]"
      by (rule first_child_copens) (simp add: new_child_simps)
    have x1: "cexec ?k1 = None \<or> cexec ?k1 = Some (arg_at ?p 0, argv_at ?p 0)"
      by (rule first_child_cexec) (simp add: new_child_simps)
    have x2: "cexec ?k2 = None \<or>
              cexec ?k2 = Some (arg_at ?p (Suc (length pre')), argv_at ?p (Suc (length pre')))"
      by (rule second_child_cexec) (simp add: new_child_simps)
    have b1: "?toks ! length pre' = ''|''" unfolding sp(1) by simp
    have b2: "?toks ! length pre = op" "?toks ! Suc (length pre) = path"
      by (simp_all add: nth_append)
    have nb: "length pre' \<noteq> length pre" "length pre' \<noteq> Suc (length pre)"
      using b1 b2 assms(2) pne by auto
    have argv2: "\<exists>k. argv_at ?p (Suc (length pre')) =
                   take (length (argv_at ?p (Suc (length pre')))) (drop k (tokenize command)) \<and>
                 (k + length (argv_at ?p (Suc (length pre'))) \<le> length pre \<or> Suc (length pre) < k)"
    proof (cases "length pre' < length pre")
      case True
      show ?thesis
      proof (intro exI [of _ "Suc (length pre')"] conjI disjI1)
        show "argv_at ?p (Suc (length pre')) =
                take (length (argv_at ?p (Suc (length pre')))) (drop (Suc (length pre')) (tokenize command))"
          unfolding assms(1) by (rule argv_block)
        show "Suc (length pre') + length (argv_at ?p (Suc (length pre'))) \<le> length pre"
          using isop True by (intro argv_short) (simp_all add: nth_append)
      qed
    next
      case False
      with nb have lt: "Suc (length pre) < Suc (length pre')" by simp
      show ?thesis
      proof (intro exI [of _ "Suc (length pre')"] conjI disjI2)
        show "argv_at ?p (Suc (length pre')) =
                take (length (argv_at ?p (Suc (length pre')))) (drop (Suc (length pre')) (tokenize command))"
          unfolding assms(1) by (rule argv_block)
        show "Suc (length pre) < Suc (length pre')" by (rule lt)
      qed
    qed
    have a1: "\<forall>prog argv. cexec ?k1 = Some (prog, argv) \<longrightarrow>
        (\<exists>k. argv = take (length argv) (drop k (tokenize command)) \<and>
             (k + length argv \<le> length pre \<or> Suc (length pre) < k))"
      using x1 argv0 by auto
    have a2: "\<forall>prog argv. cexec ?k2 = Some (prog, argv) \<longrightarrow>
        (\<exists>k. argv = take (length argv) (drop k (tokenize command)) \<and>
             (k + length argv \<le> length pre \<or> Suc (length pre) < k))"
      using x2 argv2 by auto
    from ch o c1 a1 a2 show ?thesis
      by (intro exI [of _ "[?k1, ?k2]"]) (simp del: One_nat_def)
  qed
qed

theorem C7_output_redirection_witness:
  "tokenize ''ls >> log'' = [''ls''] @ ''>>'' # ''log'' # [] \<and>
   fd_get (fds shell0) 1 = Some (Inherited 1) \<and>
   (\<exists>new. children (process_line env0 shell0 ''ls >> log'') = new \<and> new \<noteq> [] \<and>
      hd (copens (last new)) = (Some ''log'', [O_WRONLY, O_CREAT, O_APPEND], 511) \<and>
      fd_get (cfds (last new)) 1 = Some (OpenFile ''log'' [O_WRONLY, O_CREAT, O_APPEND] 511)) \<and>
   tokenize ''ls > log'' = [''ls''] @ ''>'' # ''log'' # [] \<and>
   (\<exists>new. children (process_line env0 shell0 ''ls > log'') = new \<and> new \<noteq> [] \<and>
      hd (copens (last new)) = (Some ''log'', [O_WRONLY, O_CREAT, O_TRUNC], 511) \<and>
      fd_get (cfds (last new)) 1 = Some (OpenFile ''log'' [O_WRONLY, O_CREAT, O_TRUNC] 511))"
proof -
  have t1: "tokenize ''ls >> log'' = [''ls''] @ ''>>'' # ''log'' # []" by (simp add: tokenize_eval)
  have t2: "tokenize ''ls > log'' = [''ls''] @ ''>'' # ''log'' # []" by (simp add: tokenize_eval)
  have f: "\<forall>n. fork_ok env0 n" and p: "\<forall>n. pipe_ok env0 n" by (simp_all add: env0_def)
  have z: "fd_get (fds shell0) 1 = Some (Inherited 1)" by (simp add: shell0_def fd_get_def)
  then have z': "fd_get (fds shell0) 1 \<noteq> None" by simp
  have o: "\<not> is_operator ''log''" by (simp add: is_operator_def)
  have ok: "open_ok env0 q fl" for q fl by (simp add: env0_def)
  have c0: "children shell0 = []" by (simp add: shell0_def)
  have a: "\<exists>new. children (process_line env0 shell0 ''ls >> log'') = new \<and> new \<noteq> [] \<and>
      hd (copens (last new)) = (Some ''log'', [O_WRONLY, O_CREAT, O_APPEND], 511) \<and>
      fd_get (cfds (last new)) 1 = Some (OpenFile ''log'' [O_WRONLY, O_CREAT, O_APPEND] 511)"
    using C7_output_redirection [OF t1 _ _ _ _ _ o _ _ f p z' refl refl]
    by (simp add: ok c0 del: One_nat_def)
  have b: "\<exists>new. children (process_line env0 shell0 ''ls > log'') = new \<and> new \<noteq> [] \<and>
      hd (copens (last new)) = (Some ''log'', [O_WRONLY, O_CREAT, O_TRUNC], 511) \<and>
      fd_get (cfds (last new)) 1 = Some (OpenFile ''log'' [O_WRONLY, O_CREAT, O_TRUNC] 511)"
    using C7_output_redirection [OF t2 _ _ _ _ _ o _ _ f p z' refl refl]
    by (simp add: ok c0 del: One_nat_def)
  from t1 t2 z a b show ?thesis by blast
qed

text \<open>
  The tokens of a line are its first ten words. A word behind the tenth is no token:
  when the tenth word is \<^verbatim>\<open>>\<close>, \<^verbatim>\<open>execCmd\<close> receives a line that ends in \<^verbatim>\<open>>\<close>, without a
  path token.
\<close>

lemma eleventh_word_is_no_token:
  "tokenize ''a b c d e f g h i > f'' =
     [''a'', ''b'', ''c'', ''d'', ''e'', ''f'', ''g'', ''h'', ''i'', ''>''] \<and>
   map copens (children (process_line env0 shell0 ''a b c d e f g h i > f'')) =
     [[(None, [O_WRONLY, O_CREAT, O_TRUNC], 511)]] \<and>
   map cfate (children (process_line env0 shell0 ''a b c d e f g h i > f'')) = [Exited 1]"
proof -
  let ?toks = "[''a'', ''b'', ''c'', ''d'', ''e'', ''f'', ''g'', ''h'', ''i'', ''>'']"
  have t: "tokenize ''a b c d e f g h i > f'' = ?toks" by (simp add: tokenize_eval)
  have pl: "process_line env0 shell0 ''a b c d e f g h i > f'' = execCmd env0 (args_of ?toks) shell0"
    using t by (intro process_line_exec) simp_all
  have v: "fst (scan env0 0 ?toks (locals0, shell0)) =
             \<lparr>background = 0, append_f = 0, output_redirection = 1, input_redirection = 0,
               input_file_pos = 0, output_file_pos = 9, is_pipe = 0, piped_cmd_pos = 0\<rparr>"
    by (simp add: scan_cases locals0_def eval_nat_numeral)
  have a: "arg_at (mask ?toks @ [None]) (Suc 9) = None" by (simp add: arg_at_mask)
  have k: "single_child env0 (mask ?toks @ [None])
             \<lparr>background = 0, append_f = 0, output_redirection = 1, input_redirection = 0,
               input_file_pos = 0, output_file_pos = 9, is_pipe = 0, piped_cmd_pos = 0\<rparr> c0 =
           c0\<lparr>copens := copens c0 @ [(None, [O_WRONLY, O_CREAT, O_TRUNC], 511)],
              cmsgs := cmsgs c0 @ [(2, ''Error opening file'')], cfate := Exited 1\<rparr>" for c0
    by (simp add: single_child_def outputRedirection_NULL [OF a] out_flags_def)
  have f: "fork_ok env0 n" for n by (simp add: env0_def)
  have c0: "children shell0 = []" by (simp add: shell0_def)
  have "children (process_line env0 shell0 ''a b c d e f g h i > f'') =
          [(new_child (Suc (nforks shell0)) (shell0\<lparr>nforks := Suc (nforks shell0)\<rparr>))
             \<lparr>copens := [(None, [O_WRONLY, O_CREAT, O_TRUNC], 511)],
              cmsgs := [(2, ''Error opening file'')], cfate := Exited 1\<rparr>]"
    unfolding pl by (simp add: execCmd_single_children v k f c0 new_child_simps)
  with t show ?thesis by simp
qed

subsection \<open>A child reaches \<^verbatim>\<open>execvp\<close> when its redirections have succeeded\<close>

lemma inputRedirection_opened:
  "inputRedirection e cmd k c = Inr c' \<Longrightarrow>
     list_all (opened e) (copens c') = list_all (opened e) (copens c)"
  "inputRedirection e cmd k c = Inl c' \<Longrightarrow> \<not> list_all (opened e) (copens c')"
  by (auto simp: inputRedirection_eq sys_open_def Let_def opened_def split: option.splits if_splits)

lemma outputRedirection_opened:
  "outputRedirection e cmd k a c = Inr c' \<Longrightarrow>
     list_all (opened e) (copens c') = list_all (opened e) (copens c)"
  "outputRedirection e cmd k a c = Inl c' \<Longrightarrow> \<not> list_all (opened e) (copens c')"
  by (auto simp: outputRedirection_eq sys_open_def Let_def opened_def split: option.splits if_splits)

lemma maybe_input_opened:
  "(if g then inputRedirection e p k c0 else Inr c0) = Inr c1 \<Longrightarrow>
   list_all (opened e) (copens c1) = list_all (opened e) (copens c0)"
  by (auto split: if_splits dest: inputRedirection_opened(1))

lemma maybe_output_opened:
  "(if g then outputRedirection e p k a c0 else Inr c0) = Inr c1 \<Longrightarrow>
   list_all (opened e) (copens c1) = list_all (opened e) (copens c0)"
  by (auto split: if_splits dest: outputRedirection_opened(1))

lemma single_child_exec:
  assumes "copens c0 = []" and "cexec c0 = None"
  shows "if list_all (opened e) (copens (single_child e p v c0))
         then cexec (single_child e p v c0) = Some (arg_at p 0, argv_at p 0)
         else cexec (single_child e p v c0) = None \<and> cfate (single_child e p v c0) = Exited 1"
proof (cases rule: single_child_cases [where v = v and e = e and p = p and ?c0.0 = c0])
  case (out_fail c1)
  from outputRedirection_Inl [OF out_fail(2)] outputRedirection_opened(2) [OF out_fail(2)]
  show ?thesis using assms out_fail(3) by simp
next
  case (in_fail c1 c2)
  from maybe_output_Inr [OF in_fail(1)] inputRedirection_Inl [OF in_fail(3)]
    inputRedirection_opened(2) [OF in_fail(3)]
  show ?thesis using assms in_fail(4) by simp
next
  case (exec_done c1 c2 c3)
  from maybe_output_opened [OF exec_done(1)] maybe_input_opened [OF exec_done(2)]
    sys_execvp_Inl [OF exec_done(3)]
  show ?thesis using assms exec_done(4) by simp
next
  case (exec_failed c1 c2 c3)
  from maybe_output_opened [OF exec_failed(1)] maybe_input_opened [OF exec_failed(2)]
    sys_execvp_Inr [OF exec_failed(3)]
  show ?thesis using assms exec_failed(4) by (simp add: child_print_def)
qed

lemma first_child_exec:
  assumes "copens c0 = []" and "cexec c0 = None"
  shows "if list_all (opened e) (copens (first_child e p ir ifp p0 p1 c0))
         then cexec (first_child e p ir ifp p0 p1 c0) = Some (arg_at p 0, argv_at p 0)
         else cexec (first_child e p ir ifp p0 p1 c0) = None \<and>
              cfate (first_child e p ir ifp p0 p1 c0) = Exited 1"
proof (cases rule: first_child_cases [where ir = ir and e = e and p = p and ifp = ifp
      and ?c0.0 = c0 and ?p0.0 = p0 and ?p1.0 = p1])
  case (in_fail c1)
  from inputRedirection_Inl [OF in_fail(2)] inputRedirection_opened(2) [OF in_fail(2)]
  show ?thesis using assms in_fail(3) by simp
next
  case (exec_done c2 c3)
  from maybe_input_opened [OF exec_done(1)] sys_execvp_Inl [OF exec_done(2)]
  show ?thesis using assms exec_done(3) by simp
next
  case (exec_failed c2 c3)
  from maybe_input_opened [OF exec_failed(1)] sys_execvp_Inr [OF exec_failed(2)]
  show ?thesis using assms exec_failed(3) by (simp add: child_print_def)
qed

lemma second_child_exec:
  assumes "copens c0 = []" and "cexec c0 = None"
  shows "if list_all (opened e) (copens (second_child e p orr ap ofp pcp p0 p1 c0))
         then cexec (second_child e p orr ap ofp pcp p0 p1 c0) = Some (arg_at p pcp, argv_at p pcp)
         else cexec (second_child e p orr ap ofp pcp p0 p1 c0) = None \<and>
              cfate (second_child e p orr ap ofp pcp p0 p1 c0) = Exited 1"
proof (cases rule: second_child_cases [where orr = orr and ap = ap and e = e and p = p
      and ofp = ofp and pcp = pcp and ?c0.0 = c0 and ?p0.0 = p0 and ?p1.0 = p1])
  case (out_fail c1)
  from outputRedirection_Inl [OF out_fail(2)] outputRedirection_opened(2) [OF out_fail(2)]
  show ?thesis using assms out_fail(3) by simp
next
  case (exec_done c2 c3)
  from maybe_output_opened [OF exec_done(1)] sys_execvp_Inl [OF exec_done(2)]
  show ?thesis using assms exec_done(3) by simp
next
  case (exec_failed c2 c3)
  from maybe_output_opened [OF exec_failed(1)] sys_execvp_Inr [OF exec_failed(2)]
  show ?thesis using assms exec_failed(3) by (simp add: child_print_def)
qed

lemma first_child_opens:
  assumes "copens c0 = []"
  shows "copens (first_child e p ir ifp p0 p1 c0) =
           (if ir = 1 then [(arg_at p (Suc ifp), [O_RDONLY], 0)] else [])"
proof (cases rule: first_child_cases [where ir = ir and e = e and p = p and ifp = ifp
      and ?c0.0 = c0 and ?p0.0 = p0 and ?p1.0 = p1])
  case (in_fail c1)
  from inputRedirection_Inl [OF in_fail(2)]
  show ?thesis using assms in_fail(1,3) by simp
next
  case (exec_done c2 c3)
  from maybe_input_Inr [OF exec_done(1)] sys_execvp_Inl [OF exec_done(2)]
  show ?thesis using assms exec_done(3) by simp
next
  case (exec_failed c2 c3)
  from maybe_input_Inr [OF exec_failed(1)] sys_execvp_Inr [OF exec_failed(2)]
  show ?thesis using assms exec_failed(3) by (simp add: child_print_def)
qed

lemma second_child_opens:
  assumes "copens c0 = []"
  shows "copens (second_child e p orr ap ofp pcp p0 p1 c0) =
           (if orr = 1 \<or> ap = 1 then [(arg_at p (Suc ofp), out_flags ap, 511)] else [])"
proof (cases rule: second_child_cases [where orr = orr and ap = ap and e = e and p = p
      and ofp = ofp and pcp = pcp and ?c0.0 = c0 and ?p0.0 = p0 and ?p1.0 = p1])
  case (out_fail c1)
  from outputRedirection_Inl [OF out_fail(2)]
  show ?thesis using assms out_fail(1,3) by simp
next
  case (exec_done c2 c3)
  from maybe_output_Inr [OF exec_done(1)] sys_execvp_Inl [OF exec_done(2)]
  show ?thesis using assms exec_done(3) by simp
next
  case (exec_failed c2 c3)
  from maybe_output_Inr [OF exec_failed(1)] sys_execvp_Inr [OF exec_failed(2)]
  show ?thesis using assms exec_failed(3) by (simp add: child_print_def)
qed

lemma stage_at:
  "arg_at (mask toks @ [None]) k = stage_file (drop k toks)"
  "argv_at (mask toks @ [None]) k = stage_argv (drop k toks)"
proof -
  show "argv_at (mask toks @ [None]) k = stage_argv (drop k toks)"
    by (simp add: argv_at_mask stage_argv_def)
  show "arg_at (mask toks @ [None]) k = stage_file (drop k toks)"
  proof (cases "k < length toks")
    case True
    then have "drop k toks = toks ! k # drop (Suc k) toks" by (simp add: Cons_nth_drop_Suc)
    with True show ?thesis by (simp add: arg_at_mask stage_file_def stage_argv_def)
  next
    case False
    then show ?thesis by (simp add: arg_at_mask stage_file_def stage_argv_def)
  qed
qed

lemma stage_first:
  "is_operator t \<Longrightarrow> stage_argv (pre @ t # post) = stage_argv pre"
  "is_operator t \<Longrightarrow> stage_file (pre @ t # post) = stage_file pre"
  by (simp_all add: stage_file_def stage_argv_def takeWhile_stop)

text \<open>
  C8 (as amended). The argument vector of \<^verbatim>\<open>execvp\<close> is read up to the first \<^verbatim>\<open>NULL\<close>, and
  the loop has put \<^verbatim>\<open>NULL\<close> in the place of every operator token. So, for every token
  sequence handed to \<^verbatim>\<open>execCmd\<close> (\<^verbatim>\<open>fork\<close> and \<^verbatim>\<open>pipe\<close> succeeding): the only child of a line
  without \<^verbatim>\<open>|\<close>, and the first child of a pipeline, call \<^verbatim>\<open>execvp\<close> with the run of tokens
  before the first operator token; the second child of a pipeline calls it with the
  run of tokens behind the last \<^verbatim>\<open>|\<close> up to the next operator token. Each of them does
  so when every \<^verbatim>\<open>open\<close> of its redirections has succeeded, and otherwise never calls
  \<^verbatim>\<open>execvp\<close>. A word behind a redirection and its path is not part of the vector.
\<close>

theorem C8_argv_stops_at_first_operator:
  assumes "length toks \<le> 10" and "\<forall>n. fork_ok e n" and "\<forall>n. pipe_ok e n"
    and "new = drop (length (children s)) (children (execCmd e (args_of toks) s))"
  shows "(''|'' \<notin> set toks \<longrightarrow>
            (\<exists>c. new = [c] \<and>
               (if list_all (opened e) (copens c)
                then cexec c = Some (stage_file toks, stage_argv toks)
                else cexec c = None))) \<and>
         (\<forall>pre post. toks = pre @ ''|'' # post \<and> ''|'' \<notin> set post \<longrightarrow>
            (\<exists>c1 c2. new = [c1, c2] \<and>
               (if list_all (opened e) (copens c1)
                then cexec c1 = Some (stage_file toks, stage_argv toks)
                else cexec c1 = None) \<and>
               (if list_all (opened e) (copens c2)
                then cexec c2 = Some (stage_file post, stage_argv post)
                else cexec c2 = None)))"
proof (intro conjI impI allI)
  assume nb: "''|'' \<notin> set toks"
  let ?kid = "single_child e (mask toks @ [None]) (fst (scan e 0 toks (locals0, s)))
                (new_child (Suc (nforks s)) (s\<lparr>nforks := Suc (nforks s)\<rparr>))"
  have n: "new = [?kid]"
    using assms(2,4) by (simp add: execCmd_single_children [OF assms(1) nb])
  have "if list_all (opened e) (copens ?kid)
        then cexec ?kid = Some (stage_file toks, stage_argv toks) else cexec ?kid = None"
    using single_child_exec [of "new_child (Suc (nforks s)) (s\<lparr>nforks := Suc (nforks s)\<rparr>)"
        e "mask toks @ [None]" "fst (scan e 0 toks (locals0, s))"]
    by (simp add: new_child_simps stage_at split: if_splits)
  with n show "\<exists>c. new = [c] \<and>
               (if list_all (opened e) (copens c)
                then cexec c = Some (stage_file toks, stage_argv toks)
                else cexec c = None)" by blast
next
  fix pre post
  assume sp: "toks = pre @ ''|'' # post \<and> ''|'' \<notin> set post"
  then have bar: "''|'' \<in> set toks" by simp
  let ?v = "fst (scan e 0 toks (locals0, s))"
  let ?s1 = "snd (scan e 0 toks (locals0, s))"
  let ?p = "mask toks @ [None]"
  have pos: "piped_cmd_pos ?v = Suc (length pre)"
    using scan_piped_cmd_pos [of post e 0 pre "(locals0, s)"] sp by simp
  have fr: "children ?s1 = children s" "nforks ?s1 = nforks s"
    using scan_shell_frame [of e 0 toks locals0 s] by simp_all
  have dr: "drop (Suc (length pre)) toks = post" using sp by simp
  obtain p0 p1 where pp: "fst (sys_pipe e ?s1) = Some (p0, p1)"
    using sys_pipe_ok [of e ?s1] assms(3) by auto
  let ?k1 = "first_child e ?p (input_redirection ?v) (input_file_pos ?v) p0 p1
               (new_child (Suc (nforks s)) (snd (sys_pipe e ?s1)))"
  let ?k2 = "second_child e ?p (output_redirection ?v) (append_f ?v) (output_file_pos ?v)
               (Suc (length pre)) p0 p1 (new_child (Suc (Suc (nforks s))) (snd (sys_pipe e ?s1)))"
  have n: "new = [?k1, ?k2]"
    using assms(2,4)
    by (simp add: execCmd_pipe [OF assms(1) bar] pipeCommands_children pp fr pos)
  have x1: "if list_all (opened e) (copens ?k1)
        then cexec ?k1 = Some (stage_file toks, stage_argv toks) else cexec ?k1 = None"
    using first_child_exec [of "new_child (Suc (nforks s)) (snd (sys_pipe e ?s1))"
        e ?p "input_redirection ?v" "input_file_pos ?v" p0 p1]
    by (simp add: new_child_simps stage_at split: if_splits)
  have x2: "if list_all (opened e) (copens ?k2)
        then cexec ?k2 = Some (stage_file post, stage_argv post) else cexec ?k2 = None"
    using second_child_exec [of "new_child (Suc (Suc (nforks s))) (snd (sys_pipe e ?s1))"
        e ?p "output_redirection ?v" "append_f ?v" "output_file_pos ?v" "Suc (length pre)" p0 p1]
    by (simp add: new_child_simps stage_at dr split: if_splits)
  from n x1 x2 show "\<exists>c1 c2. new = [c1, c2] \<and>
               (if list_all (opened e) (copens c1)
                then cexec c1 = Some (stage_file toks, stage_argv toks)
                else cexec c1 = None) \<and>
               (if list_all (opened e) (copens c2)
                then cexec c2 = Some (stage_file post, stage_argv post)
                else cexec c2 = None)" by blast
qed

theorem C8_argv_stops_at_first_operator_witness:
  "length [''cat'', ''<'', ''in'', ''x'', ''|'', ''sort'', ''-r'', ''>'', ''out'', ''y''] \<le> 10 \<and>
   (\<exists>c1 c2. drop (length (children shell0))
        (children (execCmd env0
           (args_of [''cat'', ''<'', ''in'', ''x'', ''|'', ''sort'', ''-r'', ''>'', ''out'', ''y''])
           shell0)) = [c1, c2] \<and>
      copens c1 = [(Some ''in'', [O_RDONLY], 0)] \<and>
      cexec c1 = Some (Some ''cat'', [''cat'']) \<and>
      copens c2 = [(Some ''out'', [O_WRONLY, O_CREAT, O_TRUNC], 511)] \<and>
      cexec c2 = Some (Some ''sort'', [''sort'', ''-r''])) \<and>
   (\<exists>c. drop (length (children shell0))
        (children (execCmd env0 (args_of [''ls'', ''>'', ''f'', ''-l'']) shell0)) = [c] \<and>
      copens c = [(Some ''f'', [O_WRONLY, O_CREAT, O_TRUNC], 511)] \<and>
      cexec c = Some (Some ''ls'', [''ls'']))"
proof -
  let ?pre = "[''cat'', ''<'', ''in'', ''x'']"
  let ?post = "[''sort'', ''-r'', ''>'', ''out'', ''y'']"
  let ?toks = "[''cat'', ''<'', ''in'', ''x'', ''|'', ''sort'', ''-r'', ''>'', ''out'', ''y'']"
  let ?new = "drop (length (children shell0)) (children (execCmd env0 (args_of ?toks) shell0))"
  have len: "length ?toks \<le> 10" by simp
  have f: "\<forall>n. fork_ok env0 n" and p: "\<forall>n. pipe_ok env0 n" by (simp_all add: env0_def)
  have sp: "?toks = ?pre @ ''|'' # ?post \<and> ''|'' \<notin> set ?post" by simp
  from C8_argv_stops_at_first_operator [OF len f p refl] sp
  obtain c1 c2 where n: "?new = [c1, c2]"
    and x1: "if list_all (opened env0) (copens c1)
             then cexec c1 = Some (stage_file ?toks, stage_argv ?toks) else cexec c1 = None"
    and x2: "if list_all (opened env0) (copens c2)
             then cexec c2 = Some (stage_file ?post, stage_argv ?post) else cexec c2 = None"
    by blast
  have v: "fst (scan env0 0 ?toks (locals0, shell0)) =
             \<lparr>background = 0, append_f = 0, output_redirection = 1, input_redirection = 1,
               input_file_pos = 1, output_file_pos = 7, is_pipe = 1, piped_cmd_pos = 5\<rparr>"
    by (simp add: scan_cases locals0_def eval_nat_numeral)
  have fr: "children (snd (scan env0 0 ?toks (locals0, shell0))) = []"
    using scan_shell_frame [of env0 0 ?toks locals0 shell0] by (simp add: shell0_def)
  have c0: "children shell0 = []" by (simp add: shell0_def)
  have nf: "nforks (snd (scan env0 0 ?toks (locals0, shell0))) = nforks shell0"
    using scan_shell_frame [of env0 0 ?toks locals0 shell0] by simp
  obtain p0 p1 where
    pp: "fst (sys_pipe env0 (snd (scan env0 0 ?toks (locals0, shell0)))) = Some (p0, p1)"
    using sys_pipe_ok [of env0 "snd (scan env0 0 ?toks (locals0, shell0))"] p by auto
  have o1: "copens (first_child env0 (mask ?toks @ [None]) 1 (Suc 0) p0 p1 c0) =
              copens c0 @ [(Some ''in'', [O_RDONLY], 0)]" for c0
    by (simp add: first_child_def inputRedirection_eq sys_open_def sys_execvp_def arg_at_def
        mask_def is_operator_def Let_def env0_def)
  have o2: "copens (second_child env0 (mask ?toks @ [None]) 1 0 7 5 p0 p1 c0) =
              copens c0 @ [(Some ''out'', [O_WRONLY, O_CREAT, O_TRUNC], 511)]" for c0
    by (simp add: second_child_def outputRedirection_eq sys_open_def sys_execvp_def arg_at_def
        mask_def is_operator_def out_flags_def Let_def env0_def eval_nat_numeral)
  have "map copens ?new =
          [[(Some ''in'', [O_RDONLY], 0)], [(Some ''out'', [O_WRONLY, O_CREAT, O_TRUNC], 511)]]"
    using f c0 nf
    by (simp add: execCmd_pipe [OF len] pipeCommands_children v pp fr o1 o2 new_child_simps)
  with n have c: "copens c1 = [(Some ''in'', [O_RDONLY], 0)]"
    "copens c2 = [(Some ''out'', [O_WRONLY, O_CREAT, O_TRUNC], 511)]" by simp_all
  from x1 c have e1: "cexec c1 = Some (Some ''cat'', [''cat''])"
    by (simp add: opened_def env0_def stage_file_def stage_argv_def is_operator_def)
  from x2 c have e2: "cexec c2 = Some (Some ''sort'', [''sort'', ''-r''])"
    by (simp add: opened_def env0_def stage_file_def stage_argv_def is_operator_def)
  let ?one = "[''ls'', ''>'', ''f'', ''-l'']"
  let ?new1 = "drop (length (children shell0)) (children (execCmd env0 (args_of ?one) shell0))"
  have len1: "length ?one \<le> 10" by simp
  have nb: "''|'' \<notin> set ?one" by simp
  from C8_argv_stops_at_first_operator [OF len1 f p refl] nb
  obtain k where n1: "?new1 = [k]"
    and y: "if list_all (opened env0) (copens k)
            then cexec k = Some (stage_file ?one, stage_argv ?one) else cexec k = None"
    by blast
  have "map copens ?new1 = [[(Some ''f'', [O_WRONLY, O_CREAT, O_TRUNC], 511)]]"
    by (simp add: execCmd_single_children child_eval env0_def shell0_def)
  with n1 have ck: "copens k = [(Some ''f'', [O_WRONLY, O_CREAT, O_TRUNC], 511)]" by simp
  from y ck have e0: "cexec k = Some (Some ''ls'', [''ls''])"
    by (simp add: opened_def env0_def stage_file_def stage_argv_def is_operator_def)
  from len n c e1 e2 n1 ck e0 show ?thesis by blast
qed

text \<open>
  C8 as stated fails on \<^verbatim>\<open>ls > f -l\<close>: the claim's vector is \<^verbatim>\<open>ls -l\<close>, the child's is \<^verbatim>\<open>ls\<close>.
\<close>

theorem C8_counterexample:
  "spec_argv [''ls'', ''>'', ''f'', ''-l''] = [''ls'', ''-l''] \<and>
   map cexec (children (execCmd env0 (args_of [''ls'', ''>'', ''f'', ''-l'']) shell0)) =
     [Some (Some ''ls'', [''ls''])]"
  by (simp add: execCmd_single_children child_eval env0_def shell0_def)

lemma stage_argv_empty: "stage_argv ts \<noteq> [] \<longleftrightarrow> ts \<noteq> [] \<and> \<not> is_operator (hd ts)"
  by (cases ts) (simp_all add: stage_argv_def)

text \<open>
  C6 (as amended). Take a line that reaches \<^verbatim>\<open>execCmd\<close> and whose tokens hold exactly one
  \<^verbatim>\<open>|\<close>; let \<^verbatim>\<open>pipe\<close> and \<^verbatim>\<open>fork\<close> succeed and the interpreter's standard input be open.
  The loop leaves two stages: the array read from index 0 and from \<open>piped_cmd_pos\<close>, that
  is the words before the \<^verbatim>\<open>|\<close> and the words behind it, each up to its first operator
  token. The vector of a stage is non-empty exactly when the stage begins with an
  ordinary word (so not on every line). Two children are created. The only \<^verbatim>\<open>open\<close> of
  the first is that of the input redirection, when the line holds a \<^verbatim>\<open><\<close>; the only
  \<^verbatim>\<open>open\<close> of the second is that of the output redirection, when the line holds a \<^verbatim>\<open>>\<close>
  or \<^verbatim>\<open>>>\<close>. A child calls \<^verbatim>\<open>execvp\<close> on its stage when its \<^verbatim>\<open>open\<close>, if any, has
  succeeded, and has otherwise exited with status 1 without calling it. The first
  child has its standard output, and no other descriptor, on the write end of a pipe,
  the second its standard input, and no other descriptor, on the read end of the same
  pipe, and the parent keeps neither end: the bytes the first stage writes to its
  standard output are the bytes the second stage reads from its standard input.
\<close>

theorem C6_pipeline:
  assumes "tokenize command = pre @ ''|'' # post" and "''|'' \<notin> set pre" and "''|'' \<notin> set post"
    and "hd (pre @ [''|'']) \<noteq> ''exit''" and "hd (pre @ [''|'']) \<noteq> ''cd''"
    and "\<forall>n. fork_ok e n" and "\<forall>n. pipe_ok e n"
    and "fd_get (fds s) 0 \<noteq> None" and "pipes_below (npipes s) (fds s)"
    and "s' = process_line e s command"
    and "classify_loop e 0 (args_of (tokenize command), locals0, s) = (parsed, v, s1)"
  shows "is_pipe v = 1 \<and> piped_cmd_pos v = Suc (length pre) \<and>
    arg_at parsed 0 = stage_file pre \<and> argv_at parsed 0 = stage_argv pre \<and>
    arg_at parsed (piped_cmd_pos v) = stage_file post \<and>
    argv_at parsed (piped_cmd_pos v) = stage_argv post \<and>
    (argv_at parsed 0 \<noteq> [] \<longleftrightarrow> pre \<noteq> [] \<and> \<not> is_operator (hd pre)) \<and>
    (argv_at parsed (piped_cmd_pos v) \<noteq> [] \<longleftrightarrow> post \<noteq> [] \<and> \<not> is_operator (hd post)) \<and>
    (\<exists>c1 c2 k. children s' = children s @ [c1, c2] \<and>
       copens c1 =
         (if ''<'' \<in> set (tokenize command)
          then [(arg_at parsed (Suc (input_file_pos v)), [O_RDONLY], 0)] else []) \<and>
       copens c2 =
         (if ''>'' \<in> set (tokenize command) \<or> ''>>'' \<in> set (tokenize command)
          then [(arg_at parsed (Suc (output_file_pos v)),
                 [O_WRONLY, O_CREAT, if ''>>'' \<in> set (tokenize command) then O_APPEND else O_TRUNC],
                 511)]
          else []) \<and>
       (if list_all (opened e) (copens c1)
        then cexec c1 = Some (arg_at parsed 0, argv_at parsed 0)
        else cexec c1 = None \<and> cfate c1 = Exited 1) \<and>
       (if list_all (opened e) (copens c2)
        then cexec c2 = Some (arg_at parsed (piped_cmd_pos v), argv_at parsed (piped_cmd_pos v))
        else cexec c2 = None \<and> cfate c2 = Exited 1) \<and>
       (\<forall>j. fd_get (cfds c1) j = Some (PipeWrite k) \<longleftrightarrow> j = 1) \<and>
       (\<forall>j. fd_get (cfds c1) j \<noteq> Some (PipeRead k)) \<and>
       (\<forall>j. fd_get (cfds c2) j = Some (PipeRead k) \<longleftrightarrow> j = 0) \<and>
       (\<forall>j. fd_get (cfds c2) j \<noteq> Some (PipeWrite k)) \<and>
       (\<forall>j. fd_get (fds s') j \<noteq> Some (PipeRead k) \<and> fd_get (fds s') j \<noteq> Some (PipeWrite k)) \<and>
       (\<forall>x b. sys_read (cfds c2) 0 (sys_write (cfds c1) 1 x b) = Some (b k @ x)))"
proof -
  let ?toks = "pre @ ''|'' # post"
  let ?p = "mask ?toks @ [None]"
  let ?v = "fst (scan e 0 ?toks (locals0, s))"
  let ?s1 = "snd (scan e 0 ?toks (locals0, s))"
  let ?k = "Suc (npipes s)"
  have len: "length ?toks \<le> 10" using tokenize_length [of command] assms(1) by simp
  have bar: "''|'' \<in> set ?toks" by simp
  have op: "is_operator ''|''" by (simp add: is_operator_def)
  have cl: "parsed = ?p" "v = ?v"
    using assms(11) classify_args [OF len, of e locals0 s] unfolding assms(1)
    by (simp_all add: prod_eq_iff)
  obtain x xs where tk: "?toks = x # xs" "x = hd (pre @ [''|''])"
    by (cases pre) simp_all
  have pl: "s' = execCmd e (args_of ?toks) s"
    using process_line_exec [of command x xs e s] assms(1,4,5,10) tk by simp
  have s1: "?s1 = snd (sys_pipe e s)"
    using assms(2,3) by (rule scan_shell_one_bar)
  have fr: "children ?s1 = children s" "nforks ?s1 = nforks s"
    using scan_shell_frame [of e 0 ?toks locals0 s] by simp_all
  have pos: "piped_cmd_pos ?v = Suc (length pre)"
    using scan_piped_cmd_pos [OF assms(3), of e 0 pre "(locals0, s)"] by simp
  have pv: "is_pipe ?v = 1"
    using scan_is_pipe [of e 0 ?toks locals0 s] by simp
  have ir: "input_redirection ?v = (if ''<'' \<in> set ?toks then 1 else 0)"
    using scan_input_redirection [of e 0 ?toks locals0 s] by (simp add: locals0_def)
  have orr: "output_redirection ?v = (if ''>'' \<in> set ?toks then 1 else 0)"
    using scan_output_redirection [of e 0 ?toks locals0 s] by (simp add: locals0_def)
  have ap: "append_f ?v = (if ''>>'' \<in> set ?toks then 1 else 0)"
    using scan_append_f [of e 0 ?toks locals0 s] by (simp add: locals0_def)
  have st1: "arg_at ?p 0 = stage_file pre" "argv_at ?p 0 = stage_argv pre"
    using stage_at [of ?toks 0] stage_first [OF op, of pre post] by simp_all
  have st2: "arg_at ?p (Suc (length pre)) = stage_file post"
    "argv_at ?p (Suc (length pre)) = stage_argv post"
    using stage_at [of ?toks "Suc (length pre)"] by simp_all
  from assms(7) have pk: "pipe_ok e (npipes s)" "pipe_ok e (Suc (npipes s))" by simp_all
  have plan: "is_pipe v = 1 \<and> piped_cmd_pos v = Suc (length pre) \<and>
    arg_at parsed 0 = stage_file pre \<and> argv_at parsed 0 = stage_argv pre \<and>
    arg_at parsed (piped_cmd_pos v) = stage_file post \<and>
    argv_at parsed (piped_cmd_pos v) = stage_argv post \<and>
    (argv_at parsed 0 \<noteq> [] \<longleftrightarrow> pre \<noteq> [] \<and> \<not> is_operator (hd pre)) \<and>
    (argv_at parsed (piped_cmd_pos v) \<noteq> [] \<longleftrightarrow> post \<noteq> [] \<and> \<not> is_operator (hd post))"
    unfolding cl pos by (simp add: pv st1 st2 stage_argv_empty)
  have kids: "\<exists>c1 c2 k. children s' = children s @ [c1, c2] \<and>
       copens c1 =
         (if ''<'' \<in> set ?toks
          then [(arg_at ?p (Suc (input_file_pos ?v)), [O_RDONLY], 0)] else []) \<and>
       copens c2 =
         (if ''>'' \<in> set ?toks \<or> ''>>'' \<in> set ?toks
          then [(arg_at ?p (Suc (output_file_pos ?v)),
                 [O_WRONLY, O_CREAT, if ''>>'' \<in> set ?toks then O_APPEND else O_TRUNC], 511)]
          else []) \<and>
       (if list_all (opened e) (copens c1)
        then cexec c1 = Some (arg_at ?p 0, argv_at ?p 0)
        else cexec c1 = None \<and> cfate c1 = Exited 1) \<and>
       (if list_all (opened e) (copens c2)
        then cexec c2 = Some (arg_at ?p (Suc (length pre)), argv_at ?p (Suc (length pre)))
        else cexec c2 = None \<and> cfate c2 = Exited 1) \<and>
       (\<forall>j. fd_get (cfds c1) j = Some (PipeWrite k) \<longleftrightarrow> j = 1) \<and>
       (\<forall>j. fd_get (cfds c1) j \<noteq> Some (PipeRead k)) \<and>
       (\<forall>j. fd_get (cfds c2) j = Some (PipeRead k) \<longleftrightarrow> j = 0) \<and>
       (\<forall>j. fd_get (cfds c2) j \<noteq> Some (PipeWrite k)) \<and>
       (\<forall>j. fd_get (fds s') j \<noteq> Some (PipeRead k) \<and> fd_get (fds s') j \<noteq> Some (PipeWrite k)) \<and>
       (\<forall>x b. sys_read (cfds c2) 0 (sys_write (cfds c1) 1 x b) = Some (b k @ x))"
  proof (cases rule: second_pipe [OF pk assms(8,9) s1])
  case (1 p0 p1)
  note pp = 1(1) and d = 1(2-5) and t2 = 1(6) and fresh = 1(9,10)
  let ?s2 = "snd (sys_pipe e ?s1)"
  let ?n1 = "new_child (Suc (nforks s)) ?s2"
  let ?n2 = "new_child (Suc (Suc (nforks s))) ?s2"
  let ?k1 = "first_child e ?p (input_redirection ?v) (input_file_pos ?v) p0 p1 ?n1"
  let ?k2 = "second_child e ?p (output_redirection ?v) (append_f ?v) (output_file_pos ?v)
               (Suc (length pre)) p0 p1 ?n2"
  have ch: "children s' = children s @ [?k1, ?k2]"
    using assms(6)
    by (simp add: pl execCmd_pipe [OF len bar] pipeCommands_children pp fr pos)
  have pf: "fds s' = sys_close p1 (sys_close p0 (fds ?s2))"
    unfolding pl execCmd_pipe [OF len bar]
    using assms(6) by (intro pipeCommands_fds pp) (simp_all add: fr)
  have n1: "copens ?k1 =
         (if ''<'' \<in> set ?toks
          then [(arg_at ?p (Suc (input_file_pos ?v)), [O_RDONLY], 0)] else [])"
    using first_child_opens [of ?n1 e ?p "input_redirection ?v" "input_file_pos ?v" p0 p1]
    unfolding ir by (simp add: new_child_simps)
  have n2: "copens ?k2 =
         (if ''>'' \<in> set ?toks \<or> ''>>'' \<in> set ?toks
          then [(arg_at ?p (Suc (output_file_pos ?v)),
                 [O_WRONLY, O_CREAT, if ''>>'' \<in> set ?toks then O_APPEND else O_TRUNC], 511)]
          else [])"
    using second_child_opens [of ?n2 e ?p "output_redirection ?v" "append_f ?v"
        "output_file_pos ?v" "Suc (length pre)" p0 p1]
    unfolding orr ap by (simp add: new_child_simps out_flags_def)
  have x1: "if list_all (opened e) (copens ?k1)
        then cexec ?k1 = Some (arg_at ?p 0, argv_at ?p 0)
        else cexec ?k1 = None \<and> cfate ?k1 = Exited 1"
    by (rule first_child_exec) (simp_all add: new_child_simps)
  have x2: "if list_all (opened e) (copens ?k2)
        then cexec ?k2 = Some (arg_at ?p (Suc (length pre)), argv_at ?p (Suc (length pre)))
        else cexec ?k2 = None \<and> cfate ?k2 = Exited 1"
    by (rule second_child_exec) (simp_all add: new_child_simps)
  have w1: "fd_get (sys_close p1 (sys_dup2 p1 1 (sys_close p0 (fds ?s2)))) j =
           (if j = p1 then None else if j = 1 then Some (PipeWrite ?k)
            else if j = p0 then None else fd_get (fds ?s2) j)" for j
    using d by (intro wired_first) (simp_all add: t2)
  have w2: "fd_get (sys_close p0 (sys_dup2 p0 0 (sys_close p1 (fds ?s2)))) j =
           (if j = p0 then None else if j = 0 then Some (PipeRead ?k)
            else if j = p1 then None else fd_get (fds ?s2) j)" for j
    using d by (intro wired_second) (simp_all add: t2)
  have f1: "(fd_get (cfds ?k1) j = Some (PipeWrite ?k) \<longleftrightarrow> j = 1) \<and>
            fd_get (cfds ?k1) j \<noteq> Some (PipeRead ?k)" for j
  proof (cases "j = 0")
    case True
    have "fd_get (cfds ?k1) 0 = fd_get (fds ?s1) 0 \<or> fd_get (cfds ?k1) 0 = None \<or>
          (\<exists>q. fd_get (cfds ?k1) 0 = Some (OpenFile q [O_RDONLY] 0))"
      using first_child_fds(2) [of e ?p "input_redirection ?v" "input_file_pos ?v" p0 p1 ?n1] d
      by (simp add: new_child_simps w1 [simplified] t2)
    with fresh [of 0] True show ?thesis by auto
  next
    case False
    have "fd_get (cfds ?k1) j =
           (if j = p1 then None else if j = 1 then Some (PipeWrite ?k)
            else if j = p0 then None else fd_get (fds ?s1) j)"
      using first_child_fds(1) [OF False, of e ?p "input_redirection ?v" "input_file_pos ?v" p0 p1 ?n1]
      by (simp add: new_child_simps w1 [simplified] t2)
    with fresh [of j] d show ?thesis by auto
  qed
  have f2: "(fd_get (cfds ?k2) j = Some (PipeRead ?k) \<longleftrightarrow> j = 0) \<and>
            fd_get (cfds ?k2) j \<noteq> Some (PipeWrite ?k)" for j
  proof (cases "j = 1")
    case True
    have "fd_get (cfds ?k2) 1 = fd_get (fds ?s1) 1 \<or> fd_get (cfds ?k2) 1 = None \<or>
          (\<exists>q. fd_get (cfds ?k2) 1 = Some (OpenFile q (out_flags (append_f ?v)) 511))"
      using second_child_fds(2) [of e ?p "output_redirection ?v" "append_f ?v" "output_file_pos ?v"
        "Suc (length pre)" p0 p1 ?n2] d
      by (auto simp add: new_child_simps w2 [simplified] t2 split: if_splits)
    with fresh [of 1] True show ?thesis by auto
  next
    case False
    have "fd_get (cfds ?k2) j =
           (if j = p0 then None else if j = 0 then Some (PipeRead ?k)
            else if j = p1 then None else fd_get (fds ?s1) j)"
      using second_child_fds(1) [OF False, of e ?p "output_redirection ?v" "append_f ?v"
        "output_file_pos ?v" "Suc (length pre)" p0 p1 ?n2]
      by (simp add: new_child_simps w2 [simplified] t2)
    with fresh [of j] d show ?thesis by auto
  qed
  have f3: "fd_get (fds s') j \<noteq> Some (PipeRead ?k) \<and> fd_get (fds s') j \<noteq> Some (PipeWrite ?k)" for j
    using fresh by (simp add: pf fd_get_close t2)
  have g1: "fd_get (cfds ?k1) 1 = Some (PipeWrite ?k)" using f1 [of 1] by simp
  have g2: "fd_get (cfds ?k2) 0 = Some (PipeRead ?k)" using f2 [of 0] by simp
  have tr: "sys_read (cfds ?k2) 0 (sys_write (cfds ?k1) 1 x b) = Some (b ?k @ x)" for x b
    unfolding sys_read_def sys_write_def g1 g2 by simp
  from ch n1 n2 x1 x2 f1 f2 f3 tr show ?thesis by blast
  qed
  from plan kids show ?thesis unfolding cl pos assms(1) by blast
qed

theorem C6_pipeline_witness:
  "tokenize ''ls | wc'' = [''ls''] @ ''|'' # [''wc''] \<and>
   fd_get (fds shell0) 0 = Some (Inherited 0) \<and> pipes_below (npipes shell0) (fds shell0) \<and>
   (\<exists>v s1. classify_loop env0 0 (args_of (tokenize ''ls | wc''), locals0, shell0) =
              ([Some ''ls'', None, Some ''wc'', None], v, s1) \<and>
           is_pipe v = 1 \<and> piped_cmd_pos v = 2) \<and>
   (\<exists>c1 c2 k. children (process_line env0 shell0 ''ls | wc'') = [c1, c2] \<and>
      cexec c1 = Some (Some ''ls'', [''ls'']) \<and> cexec c2 = Some (Some ''wc'', [''wc'']) \<and>
      fd_get (cfds c1) 1 = Some (PipeWrite k) \<and> fd_get (cfds c2) 0 = Some (PipeRead k) \<and>
      sys_read (cfds c2) 0 (sys_write (cfds c1) 1 ''X'' (\<lambda>n. [])) = Some ''X'')"
proof -
  let ?toks = "[''ls''] @ ''|'' # [''wc'']"
  let ?v = "fst (scan env0 0 ?toks (locals0, shell0))"
  let ?s1 = "snd (scan env0 0 ?toks (locals0, shell0))"
  have t: "tokenize ''ls | wc'' = ?toks" by (simp add: tokenize_eval)
  have f: "\<forall>n. fork_ok env0 n" and p: "\<forall>n. pipe_ok env0 n" by (simp_all add: env0_def)
  have z: "fd_get (fds shell0) 0 = Some (Inherited 0)" by (simp add: shell0_def fd_get_def)
  then have z': "fd_get (fds shell0) 0 \<noteq> None" by simp
  have b: "pipes_below (npipes shell0) (fds shell0)" by (simp add: shell0_def pipes_below_def)
  have m: "mask ?toks @ [None] = [Some ''ls'', None, Some ''wc'', None]"
    by (simp add: mask_def is_operator_def)
  have cl: "classify_loop env0 0 (args_of (tokenize ''ls | wc''), locals0, shell0) =
              ([Some ''ls'', None, Some ''wc'', None], ?v, ?s1)"
    unfolding t m [symmetric] by (subst classify_args) simp_all
  have h: "''|'' \<notin> set [''ls'']" "''|'' \<notin> set [''wc'']"
    "hd ([''ls''] @ [''|'']) \<noteq> ''exit''" "hd ([''ls''] @ [''|'']) \<noteq> ''cd''" by simp_all
  note r = C6_pipeline [OF t h f p z' b refl cl]
  from r have plan: "is_pipe ?v = 1" "piped_cmd_pos ?v = 2" by simp_all
  from r obtain c1 c2 k where
    ch: "children (process_line env0 shell0 ''ls | wc'') = children shell0 @ [c1, c2]"
    and n1: "copens c1 =
         (if ''<'' \<in> set (tokenize ''ls | wc'')
          then [(arg_at [Some ''ls'', None, Some ''wc'', None] (Suc (input_file_pos ?v)),
                 [O_RDONLY], 0)] else [])"
    and n2: "copens c2 =
         (if ''>'' \<in> set (tokenize ''ls | wc'') \<or> ''>>'' \<in> set (tokenize ''ls | wc'')
          then [(arg_at [Some ''ls'', None, Some ''wc'', None] (Suc (output_file_pos ?v)),
                 [O_WRONLY, O_CREAT,
                  if ''>>'' \<in> set (tokenize ''ls | wc'') then O_APPEND else O_TRUNC], 511)]
          else [])"
    and x1: "if list_all (opened env0) (copens c1)
             then cexec c1 = Some (arg_at [Some ''ls'', None, Some ''wc'', None] 0,
                                   argv_at [Some ''ls'', None, Some ''wc'', None] 0)
             else cexec c1 = None \<and> cfate c1 = Exited 1"
    and x2: "if list_all (opened env0) (copens c2)
             then cexec c2 = Some (arg_at [Some ''ls'', None, Some ''wc'', None] (piped_cmd_pos ?v),
                                   argv_at [Some ''ls'', None, Some ''wc'', None] (piped_cmd_pos ?v))
             else cexec c2 = None \<and> cfate c2 = Exited 1"
    and w1: "\<forall>j. fd_get (cfds c1) j = Some (PipeWrite k) \<longleftrightarrow> j = 1"
    and w2: "\<forall>j. fd_get (cfds c2) j = Some (PipeRead k) \<longleftrightarrow> j = 0"
    and tr: "\<forall>x b. sys_read (cfds c2) 0 (sys_write (cfds c1) 1 x b) = Some (b k @ x)"
    by blast
  from n1 n2 have o: "copens c1 = []" "copens c2 = []" by (simp_all add: t)
  from x1 o have e1: "cexec c1 = Some (Some ''ls'', [''ls''])"
    by (simp add: arg_at_def argv_at_def)
  from x2 o have e2: "cexec c2 = Some (Some ''wc'', [''wc''])"
    unfolding plan by (simp add: arg_at_def argv_at_def)
  from ch have ch': "children (process_line env0 shell0 ''ls | wc'') = [c1, c2]"
    by (simp add: shell0_def)
  from w1 have g1: "fd_get (cfds c1) 1 = Some (PipeWrite k)" by simp
  from w2 have g2: "fd_get (cfds c2) 0 = Some (PipeRead k)" by simp
  from tr have g3: "sys_read (cfds c2) 0 (sys_write (cfds c1) 1 ''X'' (\<lambda>n. [])) = Some ''X''"
    by simp
  from t z b cl plan ch' e1 e2 g1 g2 g3 show ?thesis by blast
qed

text \<open>
  C6 as stated fails on \<^verbatim>\<open>ls |\<close>: the second stage has an empty argument vector (and a
  \<^verbatim>\<open>NULL\<close> program name).
\<close>

theorem C6_counterexample:
  "map cexec (children (process_line env0 shell0 ''ls |'')) =
     [Some (Some ''ls'', [''ls'']), Some (None, [])]"
proof -
  have t: "tokenize ''ls |'' = [''ls'', ''|'']" by (simp add: tokenize_eval)
  have pl: "process_line env0 shell0 ''ls |'' = execCmd env0 (args_of [''ls'', ''|'']) shell0"
    using t by (intro process_line_exec) simp_all
  have v: "scan env0 0 [''ls'', ''|''] (locals0, shell0) =
             (\<lparr>background = 0, append_f = 0, output_redirection = 0, input_redirection = 0,
               input_file_pos = 0, output_file_pos = 0, is_pipe = 1, piped_cmd_pos = 2\<rparr>,
              snd (sys_pipe env0 shell0))"
    by (simp add: scan_cases locals0_def numeral_2_eq_2)
  have f: "fork_ok env0 n" for n by (simp add: env0_def)
  have fr: "children (snd (sys_pipe env0 shell0)) = []"
    using sys_pipe_frame [of env0 shell0] by (simp add: shell0_def)
  have ok: "fst (sys_pipe env0 (snd (sys_pipe env0 shell0))) =
              Some (lowest_free (fds (snd (sys_pipe env0 shell0))),
                    lowest_free (fd_put (fds (snd (sys_pipe env0 shell0)))
                      (lowest_free (fds (snd (sys_pipe env0 shell0))))
                      (PipeRead (npipes (snd (sys_pipe env0 shell0))))))"
    by (subst sys_pipe_Some) (simp_all add: env0_def)
  have c1: "cexec (first_child env0 (mask [''ls'', ''|''] @ [None]) 0 0 p0 p1 c0) =
              Some (Some ''ls'', [''ls''])" for p0 p1 c0
    by (simp add: first_child_def sys_execvp_def arg_at_def argv_at_def mask_def is_operator_def
        Let_def env0_def)
  have c2: "cexec (second_child env0 (mask [''ls'', ''|''] @ [None]) 0 0 0 2 p0 p1 c0) =
              Some (None, [])" for p0 p1 c0
    by (simp add: second_child_def sys_execvp_def arg_at_def argv_at_def mask_def is_operator_def
        Let_def)
  show ?thesis
    unfolding pl
    by (simp add: execCmd_pipe pipeCommands_children v ok c1 c2 f fr)
qed

end
